theory Spec2Isabelle
  imports Main
begin

section \<open>The fake FIDO2 authenticator of lib/auth/webauthncli/fido2\_test.go\<close>

text \<open>
  The test suite of the webauthncli package drives the login and registration ceremonies
  against \<open>fakeFIDO2Device\<close>, an in-memory authenticator. This theory embeds that device:
  its option probing, its PIN validation, its user-presence rendezvous and the two
  operations \<open>MakeCredential\<close> and \<open>Assertion\<close>.
\<close>

subsection \<open>Data\<close>

type_synonym bytes = "nat list"

text \<open>\<open>libfido2.OptionValue\<close> is a string type; its three constants.\<close>

definition libfido2_Default :: string where
  "libfido2_Default = ''''"

definition libfido2_True :: string where
  "libfido2_True = ''true''"

definition libfido2_False :: string where
  "libfido2_False = ''false''"

text \<open>
  Errors are values. \<open>ErrorsNew m\<close> is \<open>errors.New(m)\<close>; \<open>Libfido2Error c\<close> is
  \<open>libfido2.Error{Code: c}\<close>; the others are the named errors of go-libfido2.
\<close>

datatype error =
    ErrorsNew string
  | ErrUnsupportedOption
  | ErrNoCredentials
  | ErrPinRequired
  | ErrPinInvalid
  | ErrKeepaliveCancel
  | ErrNotFIDO2
  | Libfido2Error nat

datatype CredentialType = ES256 | EDDSA | RS256

record libfido2_Option =
  opt_Name :: string
  opt_Value :: string

record libfido2_User =
  user_ID :: bytes
  user_Name :: string
  user_DisplayName :: string
  user_Icon :: string

record libfido2_RelyingParty =
  rp_ID :: string
  rp_Name :: string

record libfido2_Credential =
  cred_ID :: bytes
  cred_Type :: CredentialType
  cred_User :: libfido2_User

record libfido2_MakeCredentialOpts =
  mc_RK :: string
  mc_UV :: string

record libfido2_AssertionOpts =
  as_UP :: string
  as_UV :: string

record libfido2_Attestation =
  att_ClientDataHash :: bytes
  att_AuthData :: bytes
  att_CredentialID :: bytes
  att_CredentialType :: CredentialType
  att_PubKey :: bytes
  att_Cert :: "bytes option"
  att_Sig :: "bytes option"
  att_Format :: string

record libfido2_Assertion =
  asr_AuthDataCBOR :: bytes
  asr_Sig :: bytes
  asr_HMACSecret :: "bytes option"
  asr_CredentialID :: bytes
  asr_User :: libfido2_User

text \<open>
  The package-level byte arrays of the test file, filled with random data by \<open>init\<close>.
\<close>

record globals =
  makeCredentialAuthDataCBOR :: bytes
  makeCredentialSig :: bytes
  assertionAuthDataCBOR :: bytes
  assertionSig :: bytes

text \<open>
  \<open>fakeFIDO2Device\<close>. \<open>info\<close> is a pointer that may be nil; \<open>keyHandle\<close> and
  \<open>keyCert\<close> are \<open>key.KeyHandle\<close> and \<open>key.Cert\<close> of the mock U2F key; \<open>up\<close> and
  \<open>cancel\<close> are the two flags guarded by the condition variable.
\<close>

record fakeFIDO2Device =
  failUV :: bool
  u2fOnly :: bool
  assertionErrors :: "error list"
  path :: string
  info :: "libfido2_Option list option"
  pin :: string
  credentials :: "libfido2_Credential list"
  wantRPID :: string
  format :: string
  keyHandle :: bytes
  keyCert :: bytes
  pubKey :: bytes
  up :: bool
  cancel :: bool

text \<open>
  A call into the device either returns (a value or an error, and the device as the call
  left it) or blocks on the condition variable because neither flag is set.
\<close>

datatype 'a outcome = Blocked | Returned "error + 'a" fakeFIDO2Device

subsection \<open>Option probing\<close>

fun lookupBoolOpt :: "libfido2_Option list \<Rightarrow> string \<Rightarrow> bool" where
  "lookupBoolOpt [] name = False"
| "lookupBoolOpt (opt # opts) name =
     (if opt_Name opt = name then opt_Value opt = libfido2_True
      else lookupBoolOpt opts name)"

definition hasBoolOpt :: "fakeFIDO2Device \<Rightarrow> string \<Rightarrow> bool" where
  "hasBoolOpt f name =
     (case info f of None \<Rightarrow> False | Some opts \<Rightarrow> lookupBoolOpt opts name)"

definition hasClientPin :: "fakeFIDO2Device \<Rightarrow> bool" where
  "hasClientPin f = hasBoolOpt f ''clientPin''"

definition hasRK :: "fakeFIDO2Device \<Rightarrow> bool" where
  "hasRK f = hasBoolOpt f ''rk''"

definition hasUV :: "fakeFIDO2Device \<Rightarrow> bool" where
  "hasUV f = hasBoolOpt f ''uv''"

definition isBio :: "fakeFIDO2Device \<Rightarrow> bool" where
  "isBio f = hasBoolOpt f ''bioEnroll''"

subsection \<open>PIN validation and the user-presence rendezvous\<close>

definition validatePIN :: "fakeFIDO2Device \<Rightarrow> string \<Rightarrow> error option" where
  "validatePIN f p =
     (if isBio f \<and> p = '''' then None
      else if pin f \<noteq> '''' \<and> p = '''' then Some ErrPinRequired
      else if pin f \<noteq> '''' \<and> pin f \<noteq> p then Some ErrPinInvalid
      else None)"

definition maybeLockUntilInteraction :: "fakeFIDO2Device \<Rightarrow> bool \<Rightarrow> unit outcome" where
  "maybeLockUntilInteraction f wantUP =
     (if \<not> wantUP then Returned (Inr ()) f
      else if \<not> up f \<and> \<not> cancel f then Blocked
      else
        let isCancel = cancel f;
            f' = f\<lparr>up := False, cancel := False\<rparr>
        in if isCancel then Returned (Inl ErrKeepaliveCancel) f'
           else Returned (Inr ()) f')"

definition setUP :: "fakeFIDO2Device \<Rightarrow> fakeFIDO2Device" where
  "setUP f = f\<lparr>up := True\<rparr>"

definition Cancel :: "fakeFIDO2Device \<Rightarrow> fakeFIDO2Device" where
  "Cancel f = f\<lparr>cancel := True\<rparr>"

definition Info :: "fakeFIDO2Device \<Rightarrow> error + libfido2_Option list option" where
  "Info f = (if u2fOnly f then Inl ErrNotFIDO2 else Inr (info f))"

subsection \<open>MakeCredential\<close>

text \<open>
  \<open>rnd\<close> is the result of \<open>rand.Read\<close> on the 16 bytes of a new resident credential ID
  (the bytes, or the message of its error), consulted only when a resident key is requested.
\<close>

definition MakeCredential ::
  "globals \<Rightarrow> fakeFIDO2Device \<Rightarrow> bytes \<Rightarrow> libfido2_RelyingParty \<Rightarrow> libfido2_User \<Rightarrow>
   CredentialType \<Rightarrow> string \<Rightarrow> libfido2_MakeCredentialOpts \<Rightarrow> string + bytes \<Rightarrow>
   libfido2_Attestation outcome" where
  "MakeCredential g f clientDataHash rp user ctype p opts rnd =
     (if clientDataHash = [] then Returned (Inl (ErrorsNew ''clientDataHash required'')) f
      else if rp_ID rp = '''' then Returned (Inl (ErrorsNew ''rp.ID required'')) f
      else if ctype \<noteq> ES256 then Returned (Inl (ErrorsNew ''bad credential type'')) f
      else if mc_UV opts = libfido2_False then Returned (Inl ErrUnsupportedOption) f
      else if mc_UV opts = libfido2_True \<and> \<not> hasUV f then Returned (Inl ErrUnsupportedOption) f
      else if mc_RK opts = libfido2_True \<and> \<not> hasRK f then Returned (Inl ErrUnsupportedOption) f
      else
        case validatePIN f p of
          Some err \<Rightarrow> Returned (Inl err) f
        | None \<Rightarrow>
           (case maybeLockUntilInteraction f True of
              Blocked \<Rightarrow> Blocked
            | Returned (Inl err) f1 \<Rightarrow> Returned (Inl err) f1
            | Returned (Inr _) f1 \<Rightarrow>
               (let crt = (if format f1 = ''none'' then None else Some (keyCert f1));
                    sg = (if format f1 = ''none'' then None else Some (makeCredentialSig g));
                    mk = (\<lambda>cID. \<lparr>att_ClientDataHash = clientDataHash,
                                 att_AuthData = makeCredentialAuthDataCBOR g,
                                 att_CredentialID = cID,
                                 att_CredentialType = ES256,
                                 att_PubKey = pubKey f1,
                                 att_Cert = crt,
                                 att_Sig = sg,
                                 att_Format = format f1\<rparr>)
                in if mc_RK opts = libfido2_True then
                     (case rnd of
                        Inl msg \<Rightarrow> Returned (Inl (ErrorsNew msg)) f1
                      | Inr cID \<Rightarrow>
                          Returned (Inr (mk cID))
                            (f1\<lparr>credentials := credentials f1 @
                               [\<lparr>cred_ID = cID, cred_Type = ES256, cred_User = user\<rparr>]\<rparr>))
                   else Returned (Inr (mk (keyHandle f1))) f1)))"

subsection \<open>Assertion\<close>

definition emptyUser :: libfido2_User where
  "emptyUser = \<lparr>user_ID = [], user_Name = '''', user_DisplayName = '''', user_Icon = ''''\<rparr>"

text \<open>The assertion for the "base" credential, added only if explicitly requested.\<close>

definition baseAssertions :: "globals \<Rightarrow> fakeFIDO2Device \<Rightarrow> bytes list \<Rightarrow> libfido2_Assertion list" where
  "baseAssertions g f credentialIDs =
     (if keyHandle f \<in> set credentialIDs then
        [\<lparr>asr_AuthDataCBOR = assertionAuthDataCBOR g,
          asr_Sig = assertionSig g,
          asr_HMACSecret = None,
          asr_CredentialID = keyHandle f,
          asr_User = emptyUser\<rparr>]
      else [])"

text \<open>The loop over the resident credentials.\<close>

fun residentAssertions ::
  "globals \<Rightarrow> bytes list \<Rightarrow> libfido2_Credential list \<Rightarrow> libfido2_Assertion list" where
  "residentAssertions g credentialIDs [] = []"
| "residentAssertions g credentialIDs (resident # rest) =
     (let allowed = (set credentialIDs = {} \<or> cred_ID resident \<in> set credentialIDs)
      in if \<not> allowed then residentAssertions g credentialIDs rest
         else
           \<lparr>asr_AuthDataCBOR = assertionAuthDataCBOR g,
            asr_Sig = assertionSig g,
            asr_HMACSecret = Some [],
            asr_CredentialID = cred_ID resident,
            asr_User = \<lparr>user_ID = user_ID (cred_User resident),
                        user_Name = user_Name (cred_User resident),
                        user_DisplayName = user_DisplayName (cred_User resident),
                        user_Icon = user_Icon (cred_User resident)\<rparr>\<rparr>
           # residentAssertions g credentialIDs rest)"

definition stripUser :: "libfido2_Assertion \<Rightarrow> libfido2_Assertion" where
  "stripUser a =
     a\<lparr>asr_User := (asr_User a)\<lparr>user_Name := '''', user_DisplayName := '''', user_Icon := ''''\<rparr>\<rparr>"

text \<open>The UV switch of \<open>Assertion\<close>: \<open>True\<close> when the call is let through.\<close>

definition validateUV :: "fakeFIDO2Device \<Rightarrow> string \<Rightarrow> libfido2_AssertionOpts \<Rightarrow> bool" where
  "validateUV f p opts =
     (if as_UV opts = '''' then True
      else if as_UV opts = libfido2_True \<and> failUV f then False
      else if as_UV opts = libfido2_True \<and> isBio f then True
      else if as_UV opts = libfido2_True \<and> hasClientPin f \<and> p \<noteq> '''' then True
      else False)"

definition Assertion ::
  "globals \<Rightarrow> fakeFIDO2Device \<Rightarrow> string \<Rightarrow> bytes \<Rightarrow> bytes list \<Rightarrow> string \<Rightarrow>
   libfido2_AssertionOpts \<Rightarrow> libfido2_Assertion list outcome" where
  "Assertion g f rpID clientDataHash credentialIDs p opts =
     (case assertionErrors f of
        err # errs \<Rightarrow> Returned (Inl err) (f\<lparr>assertionErrors := errs\<rparr>)
      | [] \<Rightarrow>
        if rpID = '''' then Returned (Inl (ErrorsNew ''rp.ID required'')) f
        else if wantRPID f \<noteq> '''' \<and> wantRPID f \<noteq> rpID then Returned (Inl ErrNoCredentials) f
        else if clientDataHash = [] then Returned (Inl (ErrorsNew ''clientDataHash required'')) f
        else if \<not> validateUV f p opts then Returned (Inl ErrUnsupportedOption) f
        else
          let checkPIN = (p \<noteq> '''' \<and> as_UP opts = libfido2_True);
              pinErr = (if checkPIN then validatePIN f p else None);
              privilegedAccess = (isBio f \<or> checkPIN)
          in case pinErr of
               Some err \<Rightarrow> Returned (Inl err) f
             | None \<Rightarrow>
                (case maybeLockUntilInteraction f (as_UP opts = libfido2_True) of
                   Blocked \<Rightarrow> Blocked
                 | Returned (Inl err) f1 \<Rightarrow> Returned (Inl err) f1
                 | Returned (Inr _) f1 \<Rightarrow>
                    (let assertions =
                           baseAssertions g f1 credentialIDs @
                           (if privilegedAccess
                            then residentAssertions g credentialIDs (credentials f1)
                            else [])
                     in case assertions of
                          [] \<Rightarrow> Returned (Inl ErrNoCredentials) f1
                        | [a] \<Rightarrow> Returned (Inr [stripUser a]) f1
                        | _ \<Rightarrow> Returned (Inr assertions) f1)))"

subsection \<open>Test fixtures\<close>

text \<open>
  \<open>newFIDO2Device\<close>: the key material (\<open>kh\<close>, \<open>crt\<close>, \<open>pk\<close>) and the credential IDs
  (\<open>rnd k\<close> for the \<open>k\<close>-th write) are random in the source and parameters here. The
  variadic \<open>creds\<close> are pointers: \<open>ptrs\<close> are their addresses and \<open>heap\<close> holds the
  credentials they point to. The loop writes a fresh ID and the type through each pointer
  in turn, so a credential passed twice ends with the ID written last in both entries.
  \<open>mocku2f.Create\<close>, \<open>U2FKeyToCBOR\<close> and \<open>rand.Read\<close> are taken to succeed, as
  \<open>mustNewFIDO2Device\<close> demands.
\<close>

fun assignIDs ::
  "(nat \<Rightarrow> bytes) \<Rightarrow> nat \<Rightarrow> nat list \<Rightarrow> (nat \<Rightarrow> libfido2_Credential) \<Rightarrow>
   nat \<Rightarrow> libfido2_Credential" where
  "assignIDs rnd k [] heap = heap"
| "assignIDs rnd k (c # cs) heap =
     assignIDs rnd (Suc k) cs (heap(c := (heap c)\<lparr>cred_ID := rnd k, cred_Type := ES256\<rparr>))"

definition newFIDO2Device ::
  "bytes \<Rightarrow> bytes \<Rightarrow> bytes \<Rightarrow> (nat \<Rightarrow> bytes) \<Rightarrow> string \<Rightarrow> string \<Rightarrow>
   libfido2_Option list option \<Rightarrow> nat list \<Rightarrow> (nat \<Rightarrow> libfido2_Credential) \<Rightarrow>
   fakeFIDO2Device" where
  "newFIDO2Device kh crt pk rnd pth p dinfo ptrs heap =
     \<lparr>failUV = False, u2fOnly = False, assertionErrors = [],
      path = pth, info = dinfo, pin = p, credentials = map (assignIDs rnd 0 ptrs heap) ptrs,
      wantRPID = '''', format = ''packed'',
      keyHandle = kh, keyCert = crt, pubKey = pk,
      up = False, cancel = False\<rparr>"

definition authOpts :: "libfido2_Option list" where
  "authOpts =
     [\<lparr>opt_Name = ''rk'', opt_Value = ''true''\<rparr>,
      \<lparr>opt_Name = ''up'', opt_Value = ''true''\<rparr>,
      \<lparr>opt_Name = ''plat'', opt_Value = ''false''\<rparr>,
      \<lparr>opt_Name = ''clientPin'', opt_Value = ''false''\<rparr>]"

definition pinOpts :: "libfido2_Option list" where
  "pinOpts =
     [\<lparr>opt_Name = ''rk'', opt_Value = ''true''\<rparr>,
      \<lparr>opt_Name = ''up'', opt_Value = ''true''\<rparr>,
      \<lparr>opt_Name = ''plat'', opt_Value = ''false''\<rparr>,
      \<lparr>opt_Name = ''clientPin'', opt_Value = ''true''\<rparr>]"

definition bioOpts :: "libfido2_Option list" where
  "bioOpts =
     [\<lparr>opt_Name = ''rk'', opt_Value = ''true''\<rparr>,
      \<lparr>opt_Name = ''up'', opt_Value = ''true''\<rparr>,
      \<lparr>opt_Name = ''uv'', opt_Value = ''true''\<rparr>,
      \<lparr>opt_Name = ''plat'', opt_Value = ''false''\<rparr>,
      \<lparr>opt_Name = ''alwaysUv'', opt_Value = ''true''\<rparr>,
      \<lparr>opt_Name = ''bioEnroll'', opt_Value = ''true''\<rparr>,
      \<lparr>opt_Name = ''clientPin'', opt_Value = ''true''\<rparr>]"

text \<open>Stand-ins for the random byte arrays and IDs of one test run.\<close>

definition g0 :: globals where
  "g0 = \<lparr>makeCredentialAuthDataCBOR = [88, 37, 1], makeCredentialSig = [70, 1],
         assertionAuthDataCBOR = [88, 37, 2], assertionSig = [70, 2]\<rparr>"

definition llama :: libfido2_User where
  "llama = \<lparr>user_ID = [1, 1, 1, 1, 1], user_Name = ''llama'', user_DisplayName = '''', user_Icon = ''''\<rparr>"

definition alpaca :: libfido2_User where
  "alpaca = \<lparr>user_ID = [1, 1, 1, 1, 2], user_Name = ''alpaca'', user_DisplayName = '''', user_Icon = ''''\<rparr>"

definition userCred :: "libfido2_User \<Rightarrow> libfido2_Credential" where
  "userCred u = \<lparr>cred_ID = [], cred_Type = ES256, cred_User = u\<rparr>"

text \<open>
  The credential literals of a test, each at an address of its own: the \<open>a\<close>-th literal
  lives at address \<open>a\<close>.
\<close>

definition literals :: "libfido2_Credential list \<Rightarrow> nat \<Rightarrow> libfido2_Credential" where
  "literals cs a = (if a < length cs then cs ! a else userCred emptyUser)"

text \<open>\<open>auth1\<close>, \<open>pin1\<close>, \<open>pin3\<close>, \<open>bio1\<close> and \<open>bio2\<close> of \<open>TestFIDO2Login\<close>.\<close>

definition auth1 :: fakeFIDO2Device where
  "auth1 = newFIDO2Device [10, 1] [11, 1] [12, 1] (\<lambda>k. [1, k]) ''/path1'' '''' (Some authOpts) [] (literals [])"

definition pin1 :: fakeFIDO2Device where
  "pin1 = newFIDO2Device [10, 2] [11, 2] [12, 2] (\<lambda>k. [2, k]) ''/pin1'' ''supersecretpinllama''
            (Some pinOpts) [] (literals [])"

definition pin3 :: fakeFIDO2Device where
  "pin3 = newFIDO2Device [10, 3] [11, 3] [12, 3] (\<lambda>k. [3, k]) ''/pin3'' ''supersecretpin3''
            (Some pinOpts) [0] (literals [userCred alpaca])"

definition bio1 :: fakeFIDO2Device where
  "bio1 = newFIDO2Device [10, 4] [11, 4] [12, 4] (\<lambda>k. [4, k]) ''/bio1'' ''supersecretBIOpin''
            (Some bioOpts) [] (literals [])"

definition bio2 :: fakeFIDO2Device where
  "bio2 = newFIDO2Device [10, 5] [11, 5] [12, 5] (\<lambda>k. [5, k]) ''/bio2'' ''supersecretBIO2pin''
            (Some bioOpts) [0, 1] (literals [userCred llama, userCred alpaca])"

text \<open>
  A well-formed authenticator outside the fixtures: built-in user verification
  (\<open>uv\<close>) reported, neither \<open>bioEnroll\<close> nor \<open>clientPin\<close>.
\<close>

definition uvOnly :: fakeFIDO2Device where
  "uvOnly = newFIDO2Device [10, 6] [11, 6] [12, 6] (\<lambda>k. [6, k]) ''/uv1'' ''''
              (Some [\<lparr>opt_Name = ''uv'', opt_Value = ''true''\<rparr>]) [] (literals [])"

section \<open>The prompts and the context of the test suite\<close>

text \<open>
  What a ceremony runs in: the plugged authenticators (the \<open>locs\<close> of \<open>fakeFIDO2\<close>, in
  the order \<open>newFakeFIDO2\<close> received them), the context (whether it carries a deadline,
  whether it has been cancelled) and the counters of the prompt. \<open>touchCount\<close> is the
  \<open>count\<close> of \<open>countingPrompt\<close>, which wraps any prompt and counts \<open>PromptTouch\<close>;
  \<open>pinCount\<close> counts \<open>PromptPIN\<close> in the same way.
\<close>

record world =
  devices :: "fakeFIDO2Device list"
  hasDeadline :: bool
  cancelled :: bool
  touchCount :: nat
  pinCount :: nat

text \<open>
  The three prompts of the test file: \<open>noopPrompt\<close>, a \<open>fakeFIDO2Device\<close> used as its
  own prompt (\<open>PromptPIN\<close> answers its PIN, \<open>PromptTouch\<close> calls \<open>setUP\<close> on it), and
  \<open>pinCancelPrompt\<close> (\<open>PromptPIN\<close> cancels the context and answers the PIN,
  \<open>PromptTouch\<close> does nothing). A device is found in the world by its path.
\<close>

datatype LoginPrompt = NoopPrompt | DevicePrompt fakeFIDO2Device | PinCancelPrompt string

definition PromptTouch :: "LoginPrompt \<Rightarrow> world \<Rightarrow> world" where
  "PromptTouch pr w =
     (let w' = w\<lparr>touchCount := Suc (touchCount w)\<rparr>
      in case pr of
           DevicePrompt f \<Rightarrow>
             w'\<lparr>devices := map (\<lambda>d. if path d = path f then setUP d else d) (devices w')\<rparr>
         | _ \<Rightarrow> w')"

definition PromptPIN :: "LoginPrompt \<Rightarrow> world \<Rightarrow> string \<times> world" where
  "PromptPIN pr w =
     (let w' = w\<lparr>pinCount := Suc (pinCount w)\<rparr>
      in case pr of
           NoopPrompt \<Rightarrow> ('''', w')
         | DevicePrompt f \<Rightarrow> (pin f, w')
         | PinCancelPrompt p \<Rightarrow> (p, w'\<lparr>cancelled := True\<rparr>))"

text \<open>\<open>simplePicker.PromptCredential\<close> picks \<open>creds[0]\<close>; on an empty list Go panics.\<close>

definition PromptCredential :: "'a list \<Rightarrow> 'a option" where
  "PromptCredential creds = (case creds of [] \<Rightarrow> None | c # _ \<Rightarrow> Some c)"

section \<open>The ceremony engine\<close>

text \<open>
  The engine itself, FIDO2Login and FIDO2Register of lib/auth/webauthncli/fido2.go, is
  not part of the sources; its test suite is. Every definition of this section is
  modelled from the specification (sections 3, 4.C, 4.D, 4.E, 6 and 7) and runs against
  the fake authenticator above. The workers of a race are taken in the order of the
  plugged devices: the first whose call returns successfully wins, a call still waiting
  for a touch is in flight.
\<close>

subsection \<open>Challenges, responses and errors\<close>

text \<open>
  Modelled from the spec: the user-verification preference of a challenge, section 3
  (missing with the engine: the protocol package's type).
\<close>

datatype UserVerification = VerificationDiscouraged | VerificationPreferred | VerificationRequired

text \<open>
  Modelled from the spec: the challenge record of section 3 (login), missing with
  \<open>wanlib.CredentialAssertion\<close>. An empty allowed-credential list means passwordless.
\<close>

record CredentialAssertion =
  ca_Challenge :: bytes
  ca_RelyingPartyID :: string
  ca_AllowedCredentials :: "bytes list"
  ca_UserVerification :: UserVerification
  ca_AppID :: "string option"

text \<open>
  Modelled from the spec: the challenge record of section 3 (register), missing with
  \<open>wanlib.CredentialCreation\<close>.
\<close>

record CredentialCreation =
  cc_Challenge :: bytes
  cc_RelyingParty :: libfido2_RelyingParty
  cc_User :: libfido2_User
  cc_Parameters :: "CredentialType list"
  cc_ExcludeList :: "bytes list"
  cc_RequireResidentKey :: bool
  cc_UserVerification :: UserVerification

text \<open>Modelled from the spec: the client-data object of section 4.E.\<close>

record CollectedClientData =
  cd_Type :: string
  cd_Challenge :: bytes
  cd_Origin :: string

text \<open>
  Modelled from the spec: the fields an INIT rejection can name (section 4.D.1 step 1 and
  the challenge invariants of section 3).
\<close>

datatype argument =
    Origin | AssertionRecord | CreationRecord | Challenge | RelyingPartyID | CredentialParameters
  | Prompt | RelyingPartyName | UserName | UserDisplayName | UserID

text \<open>
  Modelled from the spec: the error taxonomy of section 7. \<open>InvalidArgument\<close> names the
  offending field (for \<open>CredentialParameters\<close>: the list lacks ES256);
  \<open>UserVerificationFailed\<close> is "user verification function failed" (device error 60);
  \<open>DeviceError\<close> surfaces the authenticator's own error, such as
  \<open>Libfido2Error 63\<close>, "libfido2 error 63".
\<close>

datatype login_error =
    InvalidArgument argument
  | DeadlineExceeded
  | Canceled
  | NoCredentialsForUser string
  | UserVerificationFailed
  | Internal string
  | DeviceError error

text \<open>Modelled from the spec: the login response of section 3.\<close>

record LoginResponse =
  lr_RawId :: bytes
  lr_AuthenticatorData :: bytes
  lr_Signature :: bytes
  lr_UserHandle :: bytes
  lr_ClientData :: CollectedClientData
  lr_AppID :: bool

text \<open>Modelled from the spec: the attestation statement per format, section 4.E.\<close>

datatype AttStmt =
    PackedStmt CredentialType bytes "bytes list"
  | U2FStmt bytes "bytes list"
  | NoneStmt

text \<open>Modelled from the spec: the register response of section 3.\<close>

record RegisterResponse =
  rr_RawId :: bytes
  rr_Format :: string
  rr_AuthData :: bytes
  rr_AttStmt :: AttStmt
  rr_ClientData :: CollectedClientData

text \<open>
  Modelled from the spec: what the engine of fido2.go computes with besides its
  arguments, section 4.E: SHA-256 of the client-data JSON, taken as a function of the
  client-data object. The byte arrays of the test file travel with it.
\<close>

record engine =
  eng_globals :: globals
  eng_sha256 :: "CollectedClientData \<Rightarrow> bytes"

subsection \<open>Discovery and classification\<close>

text \<open>
  Modelled from the spec: the device classes of section 3 (Device Info), missing with
  the engine: legacy U2F, plain MFA, PIN-protected, biometric.
\<close>

datatype deviceKind = U2FOnly | Plain | PINProtected | Biometric

text \<open>
  Modelled from the spec: DISCOVERING, section 4.D.1 step 2, with the classes of section 3:
  \<open>bioEnroll = true\<close> is biometric, \<open>clientPin = true\<close> without it is PIN-protected,
  \<open>NotFIDO2\<close> is kept for the legacy path, any other failed probe is discarded.
\<close>

definition probe :: "fakeFIDO2Device \<Rightarrow> deviceKind option" where
  "probe d =
     (case Info d of
        Inl e \<Rightarrow> (if e = ErrNotFIDO2 then Some U2FOnly else None)
      | Inr None \<Rightarrow> Some Plain
      | Inr (Some opts) \<Rightarrow>
          Some (if lookupBoolOpt opts ''bioEnroll'' then Biometric
                else if lookupBoolOpt opts ''clientPin'' then PINProtected
                else Plain))"

text \<open>
  Modelled from the spec: a capability flag of section 3 as the engine of fido2.go reads
  it from \<open>info()\<close>.
\<close>

definition reports :: "fakeFIDO2Device \<Rightarrow> string \<Rightarrow> bool" where
  "reports d name =
     (case Info d of Inr (Some opts) \<Rightarrow> lookupBoolOpt opts name | _ \<Rightarrow> False)"

text \<open>
  Modelled from the spec: a device retained by DISCOVERING (section 4.D.1 step 2, missing
  with fido2.go): its class, the relying-party identifier it answers to, and whether that
  is the legacy application id (section 4.D.4).
\<close>

record candidate =
  cand_kind :: deviceKind
  cand_rp :: string
  cand_appid :: bool

text \<open>
  Modelled from the spec: the retry limit of fido2.go, "a small bounded limit (about 3)",
  section 4.D.2 step 5.
\<close>

definition maxUVRetries :: nat where
  "maxUVRetries = 3"

text \<open>
  Modelled from the spec: the UV retry policy of fido2.go, section 4.B ("error code 63 ... callers
  should retry a bounded number of times") and section 4.D.2 step 5 ("retry up to a small
  bounded limit (about 3) on the same device; beyond the limit, surface the underlying
  libfido2 error").
\<close>

fun retryUV :: "nat \<Rightarrow> (fakeFIDO2Device \<Rightarrow> 'a outcome) \<Rightarrow> fakeFIDO2Device \<Rightarrow> 'a outcome" where
  "retryUV 0 call d = call d"
| "retryUV (Suc n) call d =
     (case call d of
        Blocked \<Rightarrow> Blocked
      | Returned (Inr a) d' \<Rightarrow> Returned (Inr a) d'
      | Returned (Inl e) d' \<Rightarrow>
          (if e = Libfido2Error 63 then retryUV n call d' else Returned (Inl e) d'))"

text \<open>
  Modelled from the spec: the options of an assertion that asks for no user presence
  and no verification, used by the filters of fido2.go (sections 4.D.2 and 4.D.3,
  step 1).
\<close>

definition touchless :: libfido2_AssertionOpts where
  "touchless = \<lparr>as_UP = libfido2_Default, as_UV = libfido2_Default\<rparr>"

text \<open>
  Modelled from the spec: what the filter of a worker of fido2.go ends with, section 4.D.2
  steps 1 and 5: the device is dropped, the worker has failed with an error, or the
  device is retained.
\<close>

datatype 'c found = Dropped | Failed error | Retained 'c

text \<open>Modelled from the spec: the retained candidate of a filter result, section 4.D.1 step 3.\<close>

definition retained :: "'c found \<Rightarrow> 'c option" where
  "retained r = (case r of Retained c \<Rightarrow> Some c | _ \<Rightarrow> None)"

text \<open>
  Modelled from the spec: the errors of the workers that failed in their filter, collected
  for the propagation policy of section 7.
\<close>

definition failures :: "'c found list \<Rightarrow> error list" where
  "failures rs = concat (map (\<lambda>r. case r of Failed e \<Rightarrow> [e] | _ \<Rightarrow> []) rs)"

text \<open>
  Modelled from the spec: section 4.D.2, MFA steps 1 and 5. Whether the device holds one of
  the allowed credentials is learnt from an assertion without user presence, under the
  relying-party id first and the legacy application id second; a device that matches
  neither is dropped. The probing assertion is an assertion of the worker like any other:
  error 63 is retried up to the limit on the same device, and beyond the limit it is the
  error the worker fails with.
\<close>

definition discoverRPID ::
  "globals \<Rightarrow> fakeFIDO2Device \<Rightarrow> string \<Rightarrow> string option \<Rightarrow> bytes \<Rightarrow> bytes list \<Rightarrow>
   fakeFIDO2Device \<times> (string \<times> bool) found" where
  "discoverRPID g d rp appid cdh allowed =
     (case retryUV maxUVRetries (\<lambda>x. Assertion g x rp cdh allowed '''' touchless) d of
        Blocked \<Rightarrow> (d, Dropped)
      | Returned (Inr _) d1 \<Rightarrow> (d1, Retained (rp, False))
      | Returned (Inl e) d1 \<Rightarrow>
          if e = Libfido2Error 63 then (d1, Failed e)
          else
            (case appid of
               None \<Rightarrow> (d1, Dropped)
             | Some app \<Rightarrow>
                 (case retryUV maxUVRetries (\<lambda>x. Assertion g x app cdh allowed '''' touchless) d1 of
                    Blocked \<Rightarrow> (d1, Dropped)
                  | Returned (Inr _) d2 \<Rightarrow> (d2, Retained (app, True))
                  | Returned (Inl e2) d2 \<Rightarrow>
                      if e2 = Libfido2Error 63 then (d2, Failed e2) else (d2, Dropped))))"

text \<open>
  Modelled from the spec: the login filter. Passwordless needs user verification, so only
  biometric and PIN-protected devices are kept (section 4.D.2, passwordless step 3); MFA
  keeps the devices \<open>discoverRPID\<close> finds a match on, and reports the worker of a
  device on which error 63 persisted as failed.
\<close>

definition discoverLogin ::
  "globals \<Rightarrow> CredentialAssertion \<Rightarrow> bytes \<Rightarrow> fakeFIDO2Device \<Rightarrow>
   fakeFIDO2Device \<times> candidate found" where
  "discoverLogin g a cdh d =
     (case probe d of
        None \<Rightarrow> (d, Dropped)
      | Some k \<Rightarrow>
          if ca_AllowedCredentials a = [] then
            (d, if k = Biometric \<or> k = PINProtected
                then Retained \<lparr>cand_kind = k, cand_rp = ca_RelyingPartyID a, cand_appid = False\<rparr>
                else Dropped)
          else
            (case discoverRPID g d (ca_RelyingPartyID a) (ca_AppID a) cdh (ca_AllowedCredentials a) of
               (d', Dropped) \<Rightarrow> (d', Dropped)
             | (d', Failed e) \<Rightarrow> (d', Failed e)
             | (d', Retained (rp, legacy)) \<Rightarrow>
                 (d', Retained \<lparr>cand_kind = k, cand_rp = rp, cand_appid = legacy\<rparr>)))"

subsection \<open>The race\<close>

text \<open>
  Modelled from the spec: RACING, section 4.D.1 step 3 and section 4.D.2 step 4. A worker's
  call either returns a result (the worker wins and every sibling is cancelled), returns
  an error (the worker has failed) or is in flight. \<open>cancelInFlight\<close> is \<open>Cancel\<close>
  followed by the wake-up of the call in flight, which consumes both flags.
\<close>

datatype ('c, 'a) raced =
    Winner nat 'c 'a "fakeFIDO2Device list"
  | NoWinner "fakeFIDO2Device list" "error list" bool

text \<open>
  Modelled from the spec: what the winner's call to cancel leaves of a sibling whose
  assertion is in flight (section 4.D.2 step 4, section 4.D.5; missing with fido2.go).
\<close>

definition cancelInFlight :: "fakeFIDO2Device \<Rightarrow> fakeFIDO2Device" where
  "cancelInFlight d = d\<lparr>up := False, cancel := False\<rparr>"

text \<open>
  Modelled from the spec: the siblings behind the winner, section 4.D.2 step 4: a retained
  device is cancelled in flight, a device that was not retained is left alone.
\<close>

definition abortSibling :: "fakeFIDO2Device \<times> 'c option \<Rightarrow> fakeFIDO2Device" where
  "abortSibling dc = (case snd dc of None \<Rightarrow> fst dc | Some _ \<Rightarrow> cancelInFlight (fst dc))"

text \<open>
  Modelled from the spec: the race of the workers of fido2.go, section 4.D.2 step 4. The
  position of the winner in the list of plugged devices is returned with its result.
\<close>

fun race ::
  "(fakeFIDO2Device \<Rightarrow> 'c \<Rightarrow> 'a outcome) \<Rightarrow> (fakeFIDO2Device \<times> 'c option) list \<Rightarrow>
   ('c, 'a) raced" where
  "race call [] = NoWinner [] [] False"
| "race call ((d, None) # rest) =
     (case race call rest of
        NoWinner ds es fl \<Rightarrow> NoWinner (d # ds) es fl
      | Winner i c a ds \<Rightarrow> Winner (Suc i) c a (d # ds))"
| "race call ((d, Some c) # rest) =
     (case call d c of
        Returned (Inr a) d' \<Rightarrow> Winner 0 c a (d' # map abortSibling rest)
      | Returned (Inl e) d' \<Rightarrow>
          (case race call rest of
             NoWinner ds es fl \<Rightarrow> NoWinner (d' # ds) (e # es) fl
           | Winner i c' a ds \<Rightarrow> Winner (Suc i) c' a (d' # ds))
      | Blocked \<Rightarrow>
          (case race call rest of
             NoWinner ds es fl \<Rightarrow> NoWinner (d # ds) es True
           | Winner i c' a ds \<Rightarrow> Winner (Suc i) c' a (cancelInFlight d # ds)))"

text \<open>
  Modelled from the spec: the propagation policy of section 7. User-verification failure
  (error 60) propagates directly; otherwise NoCredentials over Unsupported over the rest.
\<close>

definition mostSpecific :: "error list \<Rightarrow> error" where
  "mostSpecific es =
     (if Libfido2Error 60 \<in> set es then Libfido2Error 60
      else if ErrNoCredentials \<in> set es then ErrNoCredentials
      else if ErrUnsupportedOption \<in> set es then ErrUnsupportedOption
      else (case es of [] \<Rightarrow> ErrNoCredentials | e # _ \<Rightarrow> e))"

text \<open>
  Modelled from the spec: how fido2.go surfaces a device error, section 4.B (UV rules)
  and section 7: error 60 becomes "user verification function failed".
\<close>

definition toLoginError :: "error \<Rightarrow> login_error" where
  "toLoginError e = (if e = Libfido2Error 60 then UserVerificationFailed else DeviceError e)"

text \<open>
  Modelled from the spec: section 4.D.5 and section 7. A ceremony whose work is in flight
  ends when the context does: cancellation and deadline override, and without either the
  ceremony does not return (\<open>None\<close>).
\<close>

definition expire :: "world \<Rightarrow> ((login_error + 'a) \<times> world) option" where
  "expire w =
     (if cancelled w then Some (Inl Canceled, w)
      else if hasDeadline w then Some (Inl DeadlineExceeded, w)
      else None)"

text \<open>
  Modelled from the spec: a race without winner. If every worker has failed the most
  specific error is returned; with a call in flight, or with no device retained, the
  ceremony keeps polling until the context ends.
\<close>

definition noWinner :: "world \<Rightarrow> error list \<Rightarrow> bool \<Rightarrow> ((login_error + 'a) \<times> world) option" where
  "noWinner w es inFlight =
     (if cancelled w then Some (Inl Canceled, w)
      else if \<not> inFlight \<and> es \<noteq> [] then Some (Inl (toLoginError (mostSpecific es)), w)
      else expire w)"

subsection \<open>Login\<close>

text \<open>
  Modelled from the spec: INIT for login, section 4.D.1 step 1, in the order the spec
  lists the fields.
\<close>

definition validateLogin ::
  "string \<Rightarrow> CredentialAssertion option \<Rightarrow> LoginPrompt option \<Rightarrow>
   login_error + CredentialAssertion \<times> LoginPrompt" where
  "validateLogin origin assertion prompt =
     (if origin = '''' then Inl (InvalidArgument Origin)
      else case assertion of
        None \<Rightarrow> Inl (InvalidArgument AssertionRecord)
      | Some a \<Rightarrow>
          if ca_Challenge a = [] then Inl (InvalidArgument Challenge)
          else if ca_RelyingPartyID a = '''' then Inl (InvalidArgument RelyingPartyID)
          else (case prompt of
                  None \<Rightarrow> Inl (InvalidArgument Prompt)
                | Some pr \<Rightarrow> Inr (a, pr)))"

text \<open>
  Modelled from the spec: what the login ceremony of fido2.go ends with, section 6: the
  response and the actual user, here with the position and class of the device that
  produced them.
\<close>

record loginOutcome =
  lo_Response :: LoginResponse
  lo_User :: string
  lo_Device :: nat
  lo_Kind :: deviceKind

text \<open>
  Modelled from the spec: the Result Assembler for login, section 4.E. The actual user is
  the user name the authenticator returned on the chosen assertion (the tests note that
  authenticators do not return it for a single account).
\<close>

definition assembleLogin ::
  "CollectedClientData \<Rightarrow> candidate \<Rightarrow> nat \<Rightarrow> libfido2_Assertion \<Rightarrow> loginOutcome" where
  "assembleLogin cd c i x =
     \<lparr>lo_Response =
        \<lparr>lr_RawId = asr_CredentialID x,
         lr_AuthenticatorData = asr_AuthDataCBOR x,
         lr_Signature = asr_Sig x,
         lr_UserHandle = user_ID (asr_User x),
         lr_ClientData = cd,
         lr_AppID = cand_appid c\<rparr>,
      lo_User = user_Name (asr_User x),
      lo_Device = i,
      lo_Kind = cand_kind c\<rparr>"

text \<open>
  Modelled from the spec: SELECTING, section 4.D.2, passwordless step 4. A single
  assertion is accepted directly, whatever user was asked for; among several, the one
  of the requested user is taken ("no credentials for user" if there is none), and
  without a requested user the credential picker chooses.
\<close>

definition pickAssertion :: "string \<Rightarrow> libfido2_Assertion list \<Rightarrow> login_error + libfido2_Assertion" where
  "pickAssertion user as =
     (case as of
        [] \<Rightarrow> Inl (DeviceError ErrNoCredentials)
      | [x] \<Rightarrow> Inr x
      | _ \<Rightarrow>
         if user \<noteq> '''' then
           (case find (\<lambda>x. user_Name (asr_User x) = user) as of
              None \<Rightarrow> Inl (NoCredentialsForUser user)
            | Some x \<Rightarrow> Inr x)
         else
           (case PromptCredential as of
              None \<Rightarrow> Inl (DeviceError ErrNoCredentials)
            | Some x \<Rightarrow> Inr x))"

text \<open>
  Modelled from the spec: the MFA worker, section 4.D.2 steps 2, 3 and 5. UV follows the
  preference (true when required, otherwise unset); a PIN-protected device of a
  UV-required ceremony is called with the PIN collected before the touch.
\<close>

definition mfaCall ::
  "globals \<Rightarrow> bytes \<Rightarrow> bytes list \<Rightarrow> bool \<Rightarrow> string \<Rightarrow> fakeFIDO2Device \<Rightarrow> candidate \<Rightarrow>
   libfido2_Assertion list outcome" where
  "mfaCall g cdh allowed uv p d c =
     retryUV maxUVRetries
       (\<lambda>x. Assertion g x (cand_rp c) cdh allowed
               (if uv \<and> cand_kind c = PINProtected then p else '''')
               \<lparr>as_UP = libfido2_True,
                as_UV = (if uv \<and> cand_kind c \<noteq> U2FOnly then libfido2_True else libfido2_Default)\<rparr>)
       d"

text \<open>
  Modelled from the spec: whether a PIN is collected before the touch, section 4.D.2 MFA
  step 3 and section 4.D.3 step 3: user verification is demanded and a PIN-protected
  device is retained.
\<close>

definition needsPIN :: "bool \<Rightarrow> candidate option list \<Rightarrow> bool" where
  "needsPIN uv cs = (uv \<and> (\<exists>c \<in> set cs. case c of None \<Rightarrow> False | Some k \<Rightarrow> cand_kind k = PINProtected))"

text \<open>
  Modelled from the spec: the MFA login of fido2.go, section 4.D.2: the PIN prompt if one
  is needed, one touch prompt, the race; the winner's first assertion is assembled.
  \<open>errs\<close> are the errors of the workers that failed in their filter.
\<close>

definition loginMFA ::
  "globals \<Rightarrow> CollectedClientData \<Rightarrow> bytes \<Rightarrow> CredentialAssertion \<Rightarrow> LoginPrompt \<Rightarrow>
   candidate option list \<Rightarrow> error list \<Rightarrow> world \<Rightarrow>
   ((login_error + loginOutcome) \<times> world) option" where
  "loginMFA g cd cdh a pr cs errs w =
     (let uv = (ca_UserVerification a = VerificationRequired);
          ask = needsPIN uv cs;
          (p, w1) = (if ask then PromptPIN pr w else ('''', w))
      in if ask \<and> cancelled w1 then Some (Inl Canceled, w1)
         else
           let w2 = PromptTouch pr w1
           in case race (mfaCall g cdh (ca_AllowedCredentials a) uv p) (zip (devices w2) cs) of
                NoWinner ds es fl \<Rightarrow> noWinner (w2\<lparr>devices := ds\<rparr>) (errs @ es) fl
              | Winner i c as ds \<Rightarrow>
                  (case as of
                     [] \<Rightarrow> Some (Inl (DeviceError ErrNoCredentials), w2\<lparr>devices := ds\<rparr>)
                   | x # _ \<Rightarrow> Some (Inr (assembleLogin cd c i x), w2\<lparr>devices := ds\<rparr>)))"

text \<open>
  Modelled from the spec: the passwordless worker, section 4.D.2, passwordless steps 1 and
  3. A biometric device is called with \<open>UV = true\<close>, its one touch being presence and
  verification at once; any other device is called with only the UP bit, to learn that it
  was touched: whatever the call returns is not read, and "no credentials" is the answer
  of a touched device that reveals nothing.
\<close>

text \<open>
  Modelled from the spec: what a passwordless worker of fido2.go reports, section 4.D.2:
  the device was touched (selected), or it has verified the user and answered.
\<close>

datatype selection = Selected | Verified "libfido2_Assertion list"

definition pwdlessCall ::
  "globals \<Rightarrow> bytes \<Rightarrow> fakeFIDO2Device \<Rightarrow> candidate \<Rightarrow> selection outcome" where
  "pwdlessCall g cdh d c =
     (if cand_kind c = Biometric then
        (case retryUV maxUVRetries
                (\<lambda>x. Assertion g x (cand_rp c) cdh [] ''''
                        \<lparr>as_UP = libfido2_True, as_UV = libfido2_True\<rparr>) d of
           Blocked \<Rightarrow> Blocked
         | Returned (Inl e) d' \<Rightarrow> Returned (Inl e) d'
         | Returned (Inr as) d' \<Rightarrow> Returned (Inr (Verified as)) d')
      else
        (case retryUV maxUVRetries
                (\<lambda>x. Assertion g x (cand_rp c) cdh [] ''''
                        \<lparr>as_UP = libfido2_True, as_UV = libfido2_Default\<rparr>) d of
           Blocked \<Rightarrow> Blocked
         | Returned (Inl e) d' \<Rightarrow>
             (if e = ErrNoCredentials then Returned (Inr Selected) d' else Returned (Inl e) d')
         | Returned (Inr _) d' \<Rightarrow> Returned (Inr Selected) d'))"

text \<open>
  Modelled from the spec: SELECTING and ASSEMBLING of fido2.go on the assertions of the
  chosen device, sections 4.D.2 (passwordless step 4) and 4.E.
\<close>

definition finishLogin ::
  "CollectedClientData \<Rightarrow> candidate \<Rightarrow> nat \<Rightarrow> string \<Rightarrow> libfido2_Assertion list \<Rightarrow> world \<Rightarrow>
   ((login_error + loginOutcome) \<times> world) option" where
  "finishLogin cd c i user as w =
     (case pickAssertion user as of
        Inl e \<Rightarrow> Some (Inl e, w)
      | Inr x \<Rightarrow> Some (Inr (assembleLogin cd c i x), w))"

text \<open>
  Modelled from the spec: the PIN leg of a passwordless login, section 4.D.2, passwordless
  step 3 ("invoke \<open>prompt_pin()\<close>; then call assertion with the PIN and \<open>UP = true\<close>, a
  second physical touch is required") with the cancellation of section 4.D.5: a context
  cancelled by the PIN prompt ends the ceremony before the second touch is asked for.
\<close>

definition loginWithPIN ::
  "globals \<Rightarrow> CollectedClientData \<Rightarrow> bytes \<Rightarrow> LoginPrompt \<Rightarrow> string \<Rightarrow> candidate \<Rightarrow> nat \<Rightarrow>
   world \<Rightarrow> ((login_error + loginOutcome) \<times> world) option" where
  "loginWithPIN g cd cdh pr user c i w =
     (let (p, w2) = PromptPIN pr w
      in if cancelled w2 then Some (Inl Canceled, w2)
         else
           let w3 = PromptTouch pr w2
           in if length (devices w3) \<le> i then Some (Inl (Internal ''device gone''), w3)
              else
                case retryUV maxUVRetries
                       (\<lambda>x. Assertion g x (cand_rp c) cdh [] p
                               \<lparr>as_UP = libfido2_True, as_UV = libfido2_Default\<rparr>)
                       (devices w3 ! i) of
                  Blocked \<Rightarrow> expire w3
                | Returned (Inl e) d' \<Rightarrow>
                    Some (Inl (toLoginError e), w3\<lparr>devices := (devices w3)[i := d']\<rparr>)
                | Returned (Inr as) d' \<Rightarrow>
                    finishLogin cd c i user as (w3\<lparr>devices := (devices w3)[i := d']\<rparr>))"

text \<open>
  Modelled from the spec: the passwordless login of fido2.go, section 4.D.2: one touch
  prompt, the race, then the PIN leg if the chosen device is not biometric.
\<close>

definition loginPasswordless ::
  "globals \<Rightarrow> CollectedClientData \<Rightarrow> bytes \<Rightarrow> LoginPrompt \<Rightarrow> string \<Rightarrow>
   candidate option list \<Rightarrow> world \<Rightarrow> ((login_error + loginOutcome) \<times> world) option" where
  "loginPasswordless g cd cdh pr user cs w =
     (let w1 = PromptTouch pr w
      in case race (pwdlessCall g cdh) (zip (devices w1) cs) of
           NoWinner ds es fl \<Rightarrow> noWinner (w1\<lparr>devices := ds\<rparr>) es fl
         | Winner i c (Verified as) ds \<Rightarrow> finishLogin cd c i user as (w1\<lparr>devices := ds\<rparr>)
         | Winner i c Selected ds \<Rightarrow> loginWithPIN g cd cdh pr user c i (w1\<lparr>devices := ds\<rparr>))"

text \<open>
  Modelled from the spec: the login ceremony after INIT, section 4.D.1: DISCOVERING over
  the plugged devices, then the MFA or the passwordless choreography on the retained
  ones; the MFA choreography is handed the errors of the workers that failed in their
  filter.
\<close>

definition loginCeremony ::
  "engine \<Rightarrow> string \<Rightarrow> CredentialAssertion \<Rightarrow> LoginPrompt \<Rightarrow> string \<Rightarrow> world \<Rightarrow>
   ((login_error + loginOutcome) \<times> world) option" where
  "loginCeremony eng origin a pr user w =
     (let cd = \<lparr>cd_Type = ''webauthn.get'', cd_Challenge = ca_Challenge a, cd_Origin = origin\<rparr>;
          cdh = eng_sha256 eng cd;
          found = map (discoverLogin (eng_globals eng) a cdh) (devices w);
          w0 = w\<lparr>devices := map fst found\<rparr>;
          cs = map (\<lambda>r. retained (snd r)) found
      in if ca_AllowedCredentials a = []
         then loginPasswordless (eng_globals eng) cd cdh pr user cs w0
         else loginMFA (eng_globals eng) cd cdh a pr cs (failures (map snd found)) w0)"

text \<open>
  Modelled from the spec: \<open>Login(ctx, origin, challenge, prompt, opts{user?})\<close> of
  section 6. The context and the plugged devices are the world; \<open>None\<close> is a call that
  does not return.
\<close>

definition FIDO2Login ::
  "engine \<Rightarrow> string \<Rightarrow> CredentialAssertion option \<Rightarrow> LoginPrompt option \<Rightarrow> string \<Rightarrow> world \<Rightarrow>
   ((login_error + LoginResponse \<times> string) \<times> world) option" where
  "FIDO2Login eng origin assertion prompt user w =
     (case validateLogin origin assertion prompt of
        Inl e \<Rightarrow> Some (Inl e, w)
      | Inr (a, pr) \<Rightarrow>
          (case loginCeremony eng origin a pr user w of
             None \<Rightarrow> None
           | Some (Inl e, w') \<Rightarrow> Some (Inl e, w')
           | Some (Inr lo, w') \<Rightarrow> Some (Inr (lo_Response lo, lo_User lo), w')))"

subsection \<open>Register\<close>

text \<open>
  Modelled from the spec: INIT for register, section 4.D.1 step 1, followed by the
  invariants of section 3 on the relying-party name and the user record when a resident
  key is required.
\<close>

definition validateRegister ::
  "string \<Rightarrow> CredentialCreation option \<Rightarrow> LoginPrompt option \<Rightarrow>
   login_error + CredentialCreation \<times> LoginPrompt" where
  "validateRegister origin cc prompt =
     (if origin = '''' then Inl (InvalidArgument Origin)
      else case cc of
        None \<Rightarrow> Inl (InvalidArgument CreationRecord)
      | Some c \<Rightarrow>
          if cc_Challenge c = [] then Inl (InvalidArgument Challenge)
          else if rp_ID (cc_RelyingParty c) = '''' then Inl (InvalidArgument RelyingPartyID)
          else if ES256 \<notin> set (cc_Parameters c) then Inl (InvalidArgument CredentialParameters)
          else (case prompt of
                  None \<Rightarrow> Inl (InvalidArgument Prompt)
                | Some pr \<Rightarrow>
                    if \<not> cc_RequireResidentKey c then Inr (c, pr)
                    else if rp_Name (cc_RelyingParty c) = '''' then Inl (InvalidArgument RelyingPartyName)
                    else if user_Name (cc_User c) = '''' then Inl (InvalidArgument UserName)
                    else if user_DisplayName (cc_User c) = '''' then Inl (InvalidArgument UserDisplayName)
                    else if user_ID (cc_User c) = [] then Inl (InvalidArgument UserID)
                    else Inr (c, pr)))"

text \<open>
  Modelled from the spec: the register filter, section 4.D.3 steps 1 to 3. A device that
  answers an assertion for the exclude list is removed; resident-key mode keeps devices
  with \<open>rk\<close> and either \<open>uv\<close> or \<open>clientPin\<close>.
\<close>

definition discoverRegister ::
  "globals \<Rightarrow> CredentialCreation \<Rightarrow> bytes \<Rightarrow> fakeFIDO2Device \<Rightarrow>
   fakeFIDO2Device \<times> candidate option" where
  "discoverRegister g c cdh d =
     (case probe d of
        None \<Rightarrow> (d, None)
      | Some k \<Rightarrow>
          let keep = \<lparr>cand_kind = k, cand_rp = rp_ID (cc_RelyingParty c), cand_appid = False\<rparr>;
              capable = (\<not> cc_RequireResidentKey c \<or>
                         (reports d ''rk'' \<and> (reports d ''uv'' \<or> reports d ''clientPin'')))
          in if \<not> capable then (d, None)
             else if cc_ExcludeList c = [] then (d, Some keep)
             else
               (case Assertion g d (rp_ID (cc_RelyingParty c)) cdh (cc_ExcludeList c) '''' touchless of
                  Blocked \<Rightarrow> (d, None)
                | Returned (Inr _) d' \<Rightarrow> (d', None)
                | Returned (Inl _) d' \<Rightarrow> (d', Some keep)))"

text \<open>
  Modelled from the spec: the register worker, section 4.D.3 steps 3 and 4, with the
  adapter's rule that \<open>UV = true\<close> goes only to a device with the \<open>uv\<close> capability.
\<close>

definition registerCall ::
  "globals \<Rightarrow> CredentialCreation \<Rightarrow> bytes \<Rightarrow> string \<Rightarrow> string + bytes \<Rightarrow> fakeFIDO2Device \<Rightarrow>
   candidate \<Rightarrow> libfido2_Attestation outcome" where
  "registerCall g c cdh p rnd d k =
     (let uv = (cc_RequireResidentKey c \<or> cc_UserVerification c = VerificationRequired)
      in MakeCredential g d cdh (cc_RelyingParty c) (cc_User c) ES256
           (if cand_kind k = PINProtected then p else '''')
           \<lparr>mc_RK = (if cc_RequireResidentKey c \<and> cand_kind k \<noteq> U2FOnly
                     then libfido2_True else libfido2_Default),
            mc_UV = (if uv \<and> cand_kind k \<noteq> U2FOnly \<and> reports d ''uv''
                     then libfido2_True else libfido2_Default)\<rparr>
           rnd)"

text \<open>Modelled from the spec: the Result Assembler for register, section 4.E.\<close>

definition assembleRegister ::
  "CollectedClientData \<Rightarrow> libfido2_Attestation \<Rightarrow> login_error + RegisterResponse" where
  "assembleRegister cd att =
     (let mk = (\<lambda>stmt. \<lparr>rr_RawId = att_CredentialID att, rr_Format = att_Format att,
                        rr_AuthData = att_AuthData att, rr_AttStmt = stmt, rr_ClientData = cd\<rparr>)
      in if att_Format att = ''none'' then Inr (mk NoneStmt)
         else case (att_Sig att, att_Cert att) of
                (Some sg, Some crt) \<Rightarrow>
                  if att_Format att = ''packed'' then Inr (mk (PackedStmt ES256 sg [crt]))
                  else if att_Format att = ''fido-u2f'' then Inr (mk (U2FStmt sg [crt]))
                  else Inl (Internal ''unknown attestation format'')
              | _ \<Rightarrow> Inl (Internal ''attestation without signature or certificate''))"

text \<open>
  Modelled from the spec: the register ceremony after INIT, section 4.D.3. In resident-key
  mode the PIN of a PIN-protected candidate is collected before the touch.
\<close>

definition registerCeremony ::
  "engine \<Rightarrow> string \<Rightarrow> CredentialCreation \<Rightarrow> LoginPrompt \<Rightarrow> string + bytes \<Rightarrow> world \<Rightarrow>
   ((login_error + RegisterResponse) \<times> world) option" where
  "registerCeremony eng origin c pr rnd w =
     (let cd = \<lparr>cd_Type = ''webauthn.create'', cd_Challenge = cc_Challenge c, cd_Origin = origin\<rparr>;
          cdh = eng_sha256 eng cd;
          found = map (discoverRegister (eng_globals eng) c cdh) (devices w);
          w0 = w\<lparr>devices := map fst found\<rparr>;
          ask = needsPIN (cc_RequireResidentKey c) (map snd found);
          (p, w1) = (if ask then PromptPIN pr w0 else ('''', w0))
      in if ask \<and> cancelled w1 then Some (Inl Canceled, w1)
         else
           let w2 = PromptTouch pr w1
           in case race (registerCall (eng_globals eng) c cdh p rnd) (zip (devices w2) (map snd found)) of
                NoWinner ds es fl \<Rightarrow> noWinner (w2\<lparr>devices := ds\<rparr>) es fl
              | Winner i k att ds \<Rightarrow> Some (assembleRegister cd att, w2\<lparr>devices := ds\<rparr>))"

text \<open>Modelled from the spec: \<open>Register(ctx, origin, challenge, prompt)\<close> of section 6.\<close>

definition FIDO2Register ::
  "engine \<Rightarrow> string \<Rightarrow> CredentialCreation option \<Rightarrow> LoginPrompt option \<Rightarrow> string + bytes \<Rightarrow>
   world \<Rightarrow> ((login_error + RegisterResponse) \<times> world) option" where
  "FIDO2Register eng origin cc prompt rnd w =
     (case validateRegister origin cc prompt of
        Inl e \<Rightarrow> Some (Inl e, w)
      | Inr (c, pr) \<Rightarrow> registerCeremony eng origin c pr rnd w)"

subsection \<open>Fixtures of the login tests\<close>

text \<open>A stand-in for SHA-256: any digest is a non-empty byte string.\<close>

definition eng0 :: engine where
  "eng0 = \<lparr>eng_globals = g0, eng_sha256 = (\<lambda>cd. 32 # cd_Challenge cd)\<rparr>"

text \<open>The passwordless assertion of \<open>TestFIDO2Login_PromptTouch\<close>.\<close>

definition pwdlessAssertion :: CredentialAssertion where
  "pwdlessAssertion =
     \<lparr>ca_Challenge = [1, 2, 3, 4, 5], ca_RelyingPartyID = ''example.com'',
      ca_AllowedCredentials = [], ca_UserVerification = VerificationRequired,
      ca_AppID = None\<rparr>"

text \<open>
  \<open>pin1\<close> and \<open>bio1\<close> of \<open>TestFIDO2Login_PromptTouch\<close>, which hold resident
  credentials, and its MFA assertion.
\<close>

definition pinT :: fakeFIDO2Device where
  "pinT = newFIDO2Device [10, 7] [11, 7] [12, 7] (\<lambda>k. [7, k]) ''/pin1'' ''supersecretpin1''
            (Some pinOpts) [0] (literals [userCred alpaca])"

definition bioT :: fakeFIDO2Device where
  "bioT = newFIDO2Device [10, 8] [11, 8] [12, 8] (\<lambda>k. [8, k]) ''/bio1'' ''supersecretBIO1pin''
            (Some bioOpts) [0, 1] (literals [userCred llama, userCred alpaca])"

definition mfaAssertion :: CredentialAssertion where
  "mfaAssertion =
     \<lparr>ca_Challenge = [1, 2, 3, 4, 5], ca_RelyingPartyID = ''example.com'',
      ca_AllowedCredentials = [keyHandle auth1, keyHandle pinT, keyHandle bioT],
      ca_UserVerification = VerificationPreferred, ca_AppID = None\<rparr>"

text \<open>\<open>bio\<close> of \<open>TestFIDO2Login_bioErrorHandling\<close>, with a chain of simulated errors.\<close>

definition bioE :: "error list \<Rightarrow> fakeFIDO2Device" where
  "bioE errs =
     (newFIDO2Device [10, 9] [11, 9] [12, 9] (\<lambda>k. [9, k]) ''/bio'' ''supersecretBIOpin''
        (Some bioOpts) [0] (literals [userCred llama]))\<lparr>assertionErrors := errs\<rparr>"

text \<open>
  The MFA counterpart of the assertion of \<open>TestFIDO2Login_bioErrorHandling\<close> ("MFA
  would do as well"): it allows the base credential of \<open>bio\<close>.
\<close>

definition mfaE :: CredentialAssertion where
  "mfaE =
     \<lparr>ca_Challenge = [1, 2, 3, 4, 5], ca_RelyingPartyID = ''example.com'',
      ca_AllowedCredentials = [keyHandle (bioE [])],
      ca_UserVerification = VerificationPreferred, ca_AppID = None\<rparr>"

text \<open>An MFA assertion that allows both resident credentials of \<open>bio2\<close>.\<close>

definition mfaBoth :: CredentialAssertion where
  "mfaBoth =
     \<lparr>ca_Challenge = [1, 2, 3, 4, 5], ca_RelyingPartyID = ''example.com'',
      ca_AllowedCredentials = map cred_ID (credentials bio2),
      ca_UserVerification = VerificationPreferred, ca_AppID = None\<rparr>"

text \<open>A context with a deadline, not cancelled, and fresh counters.\<close>

definition plugged :: "fakeFIDO2Device list \<Rightarrow> world" where
  "plugged ds = \<lparr>devices = ds, hasDeadline = True, cancelled = False, touchCount = 0, pinCount = 0\<rparr>"

subsection \<open>Notions used in the statements\<close>

text \<open>
  \<open>kept d d'\<close>: \<open>d'\<close> is the authenticator \<open>d\<close> after some calls. A call changes nothing
  but the two flags and the chain of simulated errors.
\<close>

definition kept :: "fakeFIDO2Device \<Rightarrow> fakeFIDO2Device \<Rightarrow> bool" where
  "kept d d' =
     (failUV d' = failUV d \<and> u2fOnly d' = u2fOnly d \<and> path d' = path d \<and> info d' = info d
      \<and> pin d' = pin d \<and> credentials d' = credentials d \<and> wantRPID d' = wantRPID d
      \<and> format d' = format d \<and> keyHandle d' = keyHandle d \<and> keyCert d' = keyCert d
      \<and> pubKey d' = pubKey d)"

text \<open>What a returned call is observed by: its result and the two counters of the prompt.\<close>

definition observe :: "('r \<times> world) option \<Rightarrow> ('r \<times> nat \<times> nat) option" where
  "observe res = (case res of None \<Rightarrow> None | Some (r, w) \<Rightarrow> Some (r, touchCount w, pinCount w))"

text \<open>\<open>loginOffends x origin assertion prompt\<close>: the argument \<open>x\<close> of a login is missing.\<close>

fun loginOffends ::
  "argument \<Rightarrow> string \<Rightarrow> CredentialAssertion option \<Rightarrow> LoginPrompt option \<Rightarrow> bool" where
  "loginOffends Origin origin assertion prompt = (origin = '''')"
| "loginOffends AssertionRecord origin assertion prompt = (assertion = None)"
| "loginOffends Challenge origin assertion prompt =
     (case assertion of None \<Rightarrow> False | Some a \<Rightarrow> ca_Challenge a = [])"
| "loginOffends RelyingPartyID origin assertion prompt =
     (case assertion of None \<Rightarrow> False | Some a \<Rightarrow> ca_RelyingPartyID a = '''')"
| "loginOffends Prompt origin assertion prompt = (prompt = None)"
| "loginOffends _ origin assertion prompt = False"

text \<open>
  \<open>registerOffends x origin cc prompt\<close>: the argument \<open>x\<close> of a registration is missing
  or, for the credential parameters, lacks ES256.
\<close>

fun registerOffends ::
  "argument \<Rightarrow> string \<Rightarrow> CredentialCreation option \<Rightarrow> LoginPrompt option \<Rightarrow> bool" where
  "registerOffends Origin origin cc prompt = (origin = '''')"
| "registerOffends CreationRecord origin cc prompt = (cc = None)"
| "registerOffends Challenge origin cc prompt =
     (case cc of None \<Rightarrow> False | Some c \<Rightarrow> cc_Challenge c = [])"
| "registerOffends RelyingPartyID origin cc prompt =
     (case cc of None \<Rightarrow> False | Some c \<Rightarrow> rp_ID (cc_RelyingParty c) = '''')"
| "registerOffends CredentialParameters origin cc prompt =
     (case cc of None \<Rightarrow> False | Some c \<Rightarrow> ES256 \<notin> set (cc_Parameters c))"
| "registerOffends Prompt origin cc prompt = (prompt = None)"
| "registerOffends _ origin cc prompt = False"



text \<open>
  \<open>eligible allowed d\<close>: the resident credentials of \<open>d\<close> that qualify for a challenge
  with the allowed list \<open>allowed\<close> (all of them when the list is empty).
\<close>

definition eligible :: "bytes list \<Rightarrow> fakeFIDO2Device \<Rightarrow> libfido2_Credential list" where
  "eligible allowed d =
     filter (\<lambda>r. set allowed = {} \<or> cred_ID r \<in> set allowed) (credentials d)"

section \<open>Properties of the fake authenticator\<close>

lemmas option_defs =
  hasBoolOpt_def hasClientPin_def hasRK_def hasUV_def isBio_def
  libfido2_True_def libfido2_False_def libfido2_Default_def

lemmas device_defs =
  option_defs validatePIN_def maybeLockUntilInteraction_def setUP_def Cancel_def Info_def
  validateUV_def baseAssertions_def stripUser_def emptyUser_def

lemmas fixture_defs =
  newFIDO2Device_def authOpts_def pinOpts_def bioOpts_def g0_def llama_def alpaca_def
  userCred_def literals_def auth1_def pin1_def pin3_def bio1_def bio2_def uvOnly_def

lemma maybeLock_fields:
  "maybeLockUntilInteraction f w = Returned r f1 \<Longrightarrow>
     keyHandle f1 = keyHandle f \<and> credentials f1 = credentials f"
  by (auto simp: maybeLockUntilInteraction_def Let_def split: if_splits)

lemma maybeLock_keeps:
  assumes "maybeLockUntilInteraction f w = Returned r f1"
  shows "keyHandle f1 = keyHandle f" and "credentials f1 = credentials f"
    and "pin f1 = pin f" and "info f1 = info f" and "path f1 = path f"
  using assms by (auto simp: maybeLockUntilInteraction_def Let_def split: if_splits)

lemma stripUser_emptyUser: "asr_User a = emptyUser \<Longrightarrow> stripUser a = a"
  by (simp add: stripUser_def emptyUser_def)

lemma stripUser_sel:
  "user_Name (asr_User (stripUser a)) = ''''"
  "user_DisplayName (asr_User (stripUser a)) = ''''"
  "user_Icon (asr_User (stripUser a)) = ''''"
  "user_ID (asr_User (stripUser a)) = user_ID (asr_User a)"
  "asr_CredentialID (stripUser a) = asr_CredentialID a"
  "asr_HMACSecret (stripUser a) = asr_HMACSecret a"
  by (simp_all add: stripUser_def)

lemma residentAssertions_mem:
  "a \<in> set (residentAssertions g ids cs) \<Longrightarrow>
     \<exists>r \<in> set cs. asr_CredentialID a = cred_ID r \<and> asr_User a = cred_User r
                  \<and> asr_HMACSecret a = Some []"
  by (induction cs) (auto simp: Let_def split: if_splits)

lemma baseAssertions_mem:
  "a \<in> set (baseAssertions g f ids) \<Longrightarrow>
     asr_CredentialID a = keyHandle f \<and> asr_User a = emptyUser \<and> asr_HMACSecret a = None"
  by (auto simp: baseAssertions_def split: if_splits)

lemma baseAssertions_length: "length (baseAssertions g f ids) \<le> 1"
  by (simp add: baseAssertions_def)

text \<open>
  What a successful \<open>Assertion\<close> call returns: the base assertion followed by the resident
  ones (the latter only under privileged access), with the user of a lone assertion stripped.
\<close>

lemma Assertion_success_shape:
  assumes "Assertion g f rpID cdh ids p opts = Returned (Inr as) f'"
  shows "\<exists>xs. xs = baseAssertions g f ids @
                 (if isBio f \<or> (p \<noteq> '''' \<and> as_UP opts = libfido2_True)
                  then residentAssertions g ids (credentials f) else [])
          \<and> xs \<noteq> []
          \<and> as = (if length xs = 1 then [stripUser (hd xs)] else xs)
          \<and> (p \<noteq> '''' \<and> as_UP opts = libfido2_True \<longrightarrow> validatePIN f p = None)"
  using assms
  by (auto simp: Assertion_def Let_def baseAssertions_def
           split: list.splits if_splits option.splits outcome.splits sum.splits
           dest!: maybeLock_fields)

text \<open>
  C2, as amended. An assertion other than the one for the base credential (key handle,
  empty user record) is returned only if the device is biometric or a non-empty PIN
  passed \<open>validatePIN\<close> on a call with \<open>UP = true\<close>. On an authenticator that is not
  biometric, a call without PIN (such as the device-selection call carrying only the UP
  bit) therefore returns nothing but the base assertion.
\<close>

theorem Assertion_resident_needs_privilege:
  assumes "Assertion g f rpID cdh ids p opts = Returned (Inr as) f'"
    and "a \<in> set as"
    and "\<not> (asr_CredentialID a = keyHandle f \<and> asr_User a = emptyUser \<and> asr_HMACSecret a = None)"
  shows "isBio f \<or> (p \<noteq> '''' \<and> as_UP opts = libfido2_True \<and> validatePIN f p = None)"
proof -
  from Assertion_success_shape [OF assms(1)] obtain xs where
    xs: "xs = baseAssertions g f ids @
           (if isBio f \<or> (p \<noteq> '''' \<and> as_UP opts = libfido2_True)
            then residentAssertions g ids (credentials f) else [])"
    and ne: "xs \<noteq> []"
    and as: "as = (if length xs = 1 then [stripUser (hd xs)] else xs)"
    and pinok: "p \<noteq> '''' \<and> as_UP opts = libfido2_True \<longrightarrow> validatePIN f p = None"
    by blast
  show ?thesis
  proof (rule ccontr)
    assume neg: "\<not> ?thesis"
    then have nopriv: "\<not> (isBio f \<or> (p \<noteq> '''' \<and> as_UP opts = libfido2_True))"
      using pinok by blast
    then have xs_base: "xs = baseAssertions g f ids"
      using xs by auto
    then have all_base: "\<forall>b \<in> set xs. asr_CredentialID b = keyHandle f \<and> asr_User b = emptyUser
                             \<and> asr_HMACSecret b = None"
      using baseAssertions_mem by blast
    have "as = xs"
    proof (cases "length xs = 1")
      case True
      then obtain b where b: "xs = [b]"
        by (cases xs) auto
      then have "stripUser b = b"
        using all_base stripUser_emptyUser by simp
      then show ?thesis using as b by simp
    next
      case False
      then show ?thesis using as by simp
    qed
    then show False using all_base assms(2,3) by blast
  qed
qed

theorem Assertion_resident_needs_privilege_witness:
  "Assertion g0 (setUP pin3) ''example.com'' [1] [] ''supersecretpin3''
     \<lparr>as_UP = libfido2_True, as_UV = ''''\<rparr>
     = Returned
         (Inr [\<lparr>asr_AuthDataCBOR = [88, 37, 2], asr_Sig = [70, 2], asr_HMACSecret = Some [],
                asr_CredentialID = [3, 0],
                asr_User = \<lparr>user_ID = [1, 1, 1, 1, 2], user_Name = '''', user_DisplayName = '''',
                            user_Icon = ''''\<rparr>\<rparr>])
         pin3
   \<and> (isBio (setUP pin3)
        \<or> (''supersecretpin3'' \<noteq> ''''
            \<and> as_UP \<lparr>as_UP = libfido2_True, as_UV = ''''\<rparr> = libfido2_True
            \<and> validatePIN (setUP pin3) ''supersecretpin3'' = None))"
proof -
  let ?a = "\<lparr>asr_AuthDataCBOR = [88, 37, 2], asr_Sig = [70, 2], asr_HMACSecret = Some [],
             asr_CredentialID = [3, 0],
             asr_User = \<lparr>user_ID = [1, 1, 1, 1, 2], user_Name = '''', user_DisplayName = '''',
                         user_Icon = ''''\<rparr>\<rparr>"
  have call: "Assertion g0 (setUP pin3) ''example.com'' [1] [] ''supersecretpin3''
                \<lparr>as_UP = libfido2_True, as_UV = ''''\<rparr> = Returned (Inr [?a]) pin3"
    by (simp add: Assertion_def fixture_defs device_defs)
  have mem: "?a \<in> set [?a]"
    by simp
  have notbase: "\<not> (asr_CredentialID ?a = keyHandle (setUP pin3) \<and> asr_User ?a = emptyUser
                     \<and> asr_HMACSecret ?a = None)"
    by simp
  show ?thesis
    using Assertion_resident_needs_privilege [OF call mem notbase] call by simp
qed

text \<open>
  C2 as stated fails on a biometric authenticator: on \<open>bio2\<close> the call with only the UP
  bit (no PIN, no UV) returns both resident credentials with their user records, and so
  does the call that asks for nothing at all (no UP, no PIN, no UV), which the device
  answers without any touch.
\<close>

theorem Assertion_up_only_reveals_on_bio:
  "Assertion g0 (setUP bio2) ''example.com'' [1] [] '''' \<lparr>as_UP = libfido2_True, as_UV = ''''\<rparr>
   = Returned
       (Inr [\<lparr>asr_AuthDataCBOR = [88, 37, 2], asr_Sig = [70, 2], asr_HMACSecret = Some [],
              asr_CredentialID = [5, 0], asr_User = llama\<rparr>,
             \<lparr>asr_AuthDataCBOR = [88, 37, 2], asr_Sig = [70, 2], asr_HMACSecret = Some [],
              asr_CredentialID = [5, 1], asr_User = alpaca\<rparr>])
       bio2
   \<and> Assertion g0 bio2 ''example.com'' [1] [] '''' \<lparr>as_UP = '''', as_UV = ''''\<rparr>
   = Returned
       (Inr [\<lparr>asr_AuthDataCBOR = [88, 37, 2], asr_Sig = [70, 2], asr_HMACSecret = Some [],
              asr_CredentialID = [5, 0], asr_User = llama\<rparr>,
             \<lparr>asr_AuthDataCBOR = [88, 37, 2], asr_Sig = [70, 2], asr_HMACSecret = Some [],
              asr_CredentialID = [5, 1], asr_User = alpaca\<rparr>])
       bio2"
  by (simp add: Assertion_def fixture_defs device_defs)

text \<open>
  C3, as amended. \<open>Assertion\<close>, once no simulated error is queued and the relying party and
  client-data hash pass their checks: \<open>UV = false\<close> is rejected with unsupported-option, and
  \<open>UV = true\<close> is rejected with unsupported-option exactly when \<open>failUV\<close> is set or the
  device is neither biometric nor PIN-capable with a non-empty PIN argument.
  \<open>MakeCredential\<close>, once hash, relying party and credential type pass their checks:
  \<open>UV = false\<close> is rejected with unsupported-option, and \<open>UV = true\<close> is rejected with
  unsupported-option when the device lacks the \<open>uv\<close> option (a PIN does not help) and
  is not rejected so when it has it (and \<open>rk\<close>, if a resident key is asked for).
\<close>

theorem UV_option_rules:
  "(assertionErrors f = [] \<and> rpID \<noteq> '''' \<and> (wantRPID f = '''' \<or> wantRPID f = rpID) \<and> cdh \<noteq> [] \<longrightarrow>
      (as_UV aopts = libfido2_False \<longrightarrow>
         Assertion g f rpID cdh ids p aopts = Returned (Inl ErrUnsupportedOption) f)
    \<and> (as_UV aopts = libfido2_True \<longrightarrow>
         (Assertion g f rpID cdh ids p aopts = Returned (Inl ErrUnsupportedOption) f)
           = (failUV f \<or> \<not> (isBio f \<or> (hasClientPin f \<and> p \<noteq> '''')))))
   \<and> (cdh \<noteq> [] \<and> rp_ID rp \<noteq> '''' \<and> ctype = ES256 \<longrightarrow>
      (mc_UV mopts = libfido2_False \<longrightarrow>
         MakeCredential g f cdh rp user ctype p mopts rnd = Returned (Inl ErrUnsupportedOption) f)
    \<and> (mc_UV mopts = libfido2_True \<and> \<not> hasUV f \<longrightarrow>
         MakeCredential g f cdh rp user ctype p mopts rnd = Returned (Inl ErrUnsupportedOption) f)
    \<and> (mc_UV mopts = libfido2_True \<and> hasUV f \<and> (mc_RK mopts = libfido2_True \<longrightarrow> hasRK f) \<longrightarrow>
         MakeCredential g f cdh rp user ctype p mopts rnd \<noteq> Returned (Inl ErrUnsupportedOption) f'))"
proof -
  have A1: "Assertion g f rpID cdh ids p aopts = Returned (Inl ErrUnsupportedOption) f"
    if "assertionErrors f = []" "rpID \<noteq> ''''" "wantRPID f = '''' \<or> wantRPID f = rpID" "cdh \<noteq> []"
       "as_UV aopts = libfido2_False"
    using that by (auto simp: Assertion_def validateUV_def libfido2_False_def libfido2_True_def)
  have A2: "(Assertion g f rpID cdh ids p aopts = Returned (Inl ErrUnsupportedOption) f)
              = (failUV f \<or> \<not> (isBio f \<or> (hasClientPin f \<and> p \<noteq> '''')))"
    if "assertionErrors f = []" "rpID \<noteq> ''''" "wantRPID f = '''' \<or> wantRPID f = rpID" "cdh \<noteq> []"
       "as_UV aopts = libfido2_True"
  proof (cases "validateUV f p aopts")
    case False
    then have "Assertion g f rpID cdh ids p aopts = Returned (Inl ErrUnsupportedOption) f"
      using that by (auto simp: Assertion_def)
    moreover have "failUV f \<or> \<not> (isBio f \<or> (hasClientPin f \<and> p \<noteq> ''''))"
      using False that(5) by (auto simp: validateUV_def split: if_splits)
    ultimately show ?thesis by simp
  next
    case True
    then have ok: "\<not> (failUV f \<or> \<not> (isBio f \<or> (hasClientPin f \<and> p \<noteq> '''')))"
      using that(5) by (auto simp: validateUV_def libfido2_True_def split: if_splits)
    have "Assertion g f rpID cdh ids p aopts \<noteq> Returned (Inl ErrUnsupportedOption) f"
      using True that(1-4)
      by (auto simp: Assertion_def Let_def validatePIN_def maybeLockUntilInteraction_def
               split: list.splits option.splits if_splits)
    then show ?thesis using ok by simp
  qed
  have M1: "MakeCredential g f cdh rp user ctype p mopts rnd = Returned (Inl ErrUnsupportedOption) f"
    if "cdh \<noteq> []" "rp_ID rp \<noteq> ''''" "ctype = ES256" "mc_UV mopts = libfido2_False"
    using that by (simp add: MakeCredential_def)
  have M2: "MakeCredential g f cdh rp user ctype p mopts rnd = Returned (Inl ErrUnsupportedOption) f"
    if "cdh \<noteq> []" "rp_ID rp \<noteq> ''''" "ctype = ES256" "mc_UV mopts = libfido2_True" "\<not> hasUV f"
    using that by (simp add: MakeCredential_def)
  have M3: "MakeCredential g f cdh rp user ctype p mopts rnd \<noteq> Returned (Inl ErrUnsupportedOption) f'"
    if "cdh \<noteq> []" "rp_ID rp \<noteq> ''''" "ctype = ES256" "mc_UV mopts = libfido2_True" "hasUV f"
       "mc_RK mopts = libfido2_True \<longrightarrow> hasRK f"
    using that
    by (auto simp: MakeCredential_def Let_def validatePIN_def maybeLockUntilInteraction_def
                   libfido2_True_def libfido2_False_def
             split: option.splits if_splits sum.splits)
  show ?thesis
    using A1 A2 M1 M2 M3 by blast
qed

theorem UV_option_rules_witness:
  "Assertion g0 pin1 ''example.com'' [1] [] ''supersecretpinllama''
     \<lparr>as_UP = libfido2_True, as_UV = libfido2_False\<rparr> = Returned (Inl ErrUnsupportedOption) pin1
   \<and> Assertion g0 pin1 ''example.com'' [1] [] ''''
     \<lparr>as_UP = libfido2_True, as_UV = libfido2_True\<rparr> = Returned (Inl ErrUnsupportedOption) pin1
   \<and> MakeCredential g0 pin1 [1] \<lparr>rp_ID = ''example.com'', rp_Name = ''''\<rparr> emptyUser ES256
       ''supersecretpinllama'' \<lparr>mc_RK = '''', mc_UV = libfido2_True\<rparr> (Inr [9])
     = Returned (Inl ErrUnsupportedOption) pin1"
  using UV_option_rules [where f = pin1 and g = g0 and rpID = "''example.com''" and cdh = "[1]"
      and ids = "[]" and p = "''supersecretpinllama''"
      and aopts = "\<lparr>as_UP = libfido2_True, as_UV = libfido2_False\<rparr>"
      and rp = "\<lparr>rp_ID = ''example.com'', rp_Name = ''''\<rparr>" and ctype = ES256 and user = emptyUser
      and mopts = "\<lparr>mc_RK = '''', mc_UV = libfido2_True\<rparr>" and rnd = "Inr [9]"]
    UV_option_rules [where f = pin1 and g = g0 and rpID = "''example.com''" and cdh = "[1]"
      and ids = "[]" and p = "''''"
      and aopts = "\<lparr>as_UP = libfido2_True, as_UV = libfido2_True\<rparr>"]
  by (simp add: fixture_defs option_defs)

text \<open>
  C3 as stated fails for \<open>MakeCredential\<close>: on an authenticator that reports \<open>uv\<close> but is
  neither biometric (\<open>bioEnroll\<close>) nor PIN-capable, \<open>UV = true\<close> is accepted and the
  credential is made.
\<close>

theorem MakeCredential_UV_accepted_without_bio_or_pin:
  "\<not> isBio (setUP uvOnly) \<and> \<not> hasClientPin (setUP uvOnly)
   \<and> MakeCredential g0 (setUP uvOnly) [1] \<lparr>rp_ID = ''example.com'', rp_Name = ''''\<rparr> emptyUser ES256
       '''' \<lparr>mc_RK = '''', mc_UV = libfido2_True\<rparr> (Inr [9])
     = Returned
         (Inr \<lparr>att_ClientDataHash = [1], att_AuthData = [88, 37, 1], att_CredentialID = [10, 6],
               att_CredentialType = ES256, att_PubKey = [12, 6], att_Cert = Some [11, 6],
               att_Sig = Some [70, 1], att_Format = ''packed''\<rparr>)
         uvOnly"
  by (simp add: MakeCredential_def fixture_defs device_defs)

text \<open>
  C4. \<open>Assertion\<close> returns as many assertions as it has assembled (the base assertion
  if requested, then the resident ones under privileged access). When that is exactly
  one, the assertion returned is the assembled one with the name, display name and icon
  of its user record set to the empty string and everything else, the user ID included,
  as assembled. When it is more than one, the assembled list is returned as it is: each
  assertion is the base assertion or carries the user record of a resident credential of
  the device, unchanged.
\<close>

theorem Assertion_single_user_stripped:
  assumes "Assertion g f rpID cdh ids p opts = Returned (Inr as) f'"
  shows "length as = length (baseAssertions g f ids @
                              (if isBio f \<or> (p \<noteq> '''' \<and> as_UP opts = libfido2_True)
                               then residentAssertions g ids (credentials f) else []))
       \<and> (length as = 1 \<longrightarrow>
            as = [(hd (baseAssertions g f ids @
                        (if isBio f \<or> (p \<noteq> '''' \<and> as_UP opts = libfido2_True)
                         then residentAssertions g ids (credentials f) else [])))
                    \<lparr>asr_User :=
                       \<lparr>user_ID =
                          user_ID (asr_User (hd (baseAssertions g f ids @
                             (if isBio f \<or> (p \<noteq> '''' \<and> as_UP opts = libfido2_True)
                              then residentAssertions g ids (credentials f) else [])))),
                        user_Name = '''', user_DisplayName = '''', user_Icon = ''''\<rparr>\<rparr>])
       \<and> (1 < length as \<longrightarrow>
            as = baseAssertions g f ids @
                   (if isBio f \<or> (p \<noteq> '''' \<and> as_UP opts = libfido2_True)
                    then residentAssertions g ids (credentials f) else [])
            \<and> (\<forall>a \<in> set as.
                  (asr_CredentialID a = keyHandle f \<and> asr_User a = emptyUser)
                  \<or> (\<exists>r \<in> set (credentials f).
                        asr_CredentialID a = cred_ID r \<and> asr_User a = cred_User r)))"
proof -
  let ?raw = "baseAssertions g f ids @
                (if isBio f \<or> (p \<noteq> '''' \<and> as_UP opts = libfido2_True)
                 then residentAssertions g ids (credentials f) else [])"
  from Assertion_success_shape [OF assms] have
    ne: "?raw \<noteq> []"
    and as: "as = (if length ?raw = 1 then [stripUser (hd ?raw)] else ?raw)"
    by auto
  have len: "length as = length ?raw"
    using as by (simp split: if_splits)
  have strip: "stripUser x = x\<lparr>asr_User := \<lparr>user_ID = user_ID (asr_User x), user_Name = '''',
                                            user_DisplayName = '''', user_Icon = ''''\<rparr>\<rparr>" for x
    by (simp add: stripUser_def)
  have single: "length as = 1 \<longrightarrow>
                  as = [(hd ?raw)\<lparr>asr_User := \<lparr>user_ID = user_ID (asr_User (hd ?raw)),
                                                user_Name = '''', user_DisplayName = '''',
                                                user_Icon = ''''\<rparr>\<rparr>]"
  proof
    assume "length as = 1"
    then have "length ?raw = 1"
      using len by simp
    then have "as = [stripUser (hd ?raw)]"
      using as by simp
    then show "as = [(hd ?raw)\<lparr>asr_User := \<lparr>user_ID = user_ID (asr_User (hd ?raw)),
                                                user_Name = '''', user_DisplayName = '''',
                                                user_Icon = ''''\<rparr>\<rparr>]"
      using strip [of "hd ?raw"] by simp
  qed
  have multi: "1 < length as \<longrightarrow> as = ?raw"
    using as by (auto split: if_splits)
  have origin: "\<forall>a \<in> set ?raw.
                  (asr_CredentialID a = keyHandle f \<and> asr_User a = emptyUser)
                  \<or> (\<exists>r \<in> set (credentials f).
                        asr_CredentialID a = cred_ID r \<and> asr_User a = cred_User r)"
  proof
    fix a assume "a \<in> set ?raw"
    then consider "a \<in> set (baseAssertions g f ids)"
      | "a \<in> set (residentAssertions g ids (credentials f))"
      by (auto split: if_splits)
    then show "(asr_CredentialID a = keyHandle f \<and> asr_User a = emptyUser)
                  \<or> (\<exists>r \<in> set (credentials f).
                        asr_CredentialID a = cred_ID r \<and> asr_User a = cred_User r)"
    proof cases
      case 1
      then show ?thesis using baseAssertions_mem by blast
    next
      case 2
      then show ?thesis using residentAssertions_mem by blast
    qed
  qed
  have multi2: "1 < length as \<longrightarrow>
            as = ?raw
            \<and> (\<forall>a \<in> set as.
                  (asr_CredentialID a = keyHandle f \<and> asr_User a = emptyUser)
                  \<or> (\<exists>r \<in> set (credentials f).
                        asr_CredentialID a = cred_ID r \<and> asr_User a = cred_User r))"
  proof
    assume "1 < length as"
    then have "as = ?raw"
      using multi by blast
    then show "as = ?raw
            \<and> (\<forall>a \<in> set as.
                  (asr_CredentialID a = keyHandle f \<and> asr_User a = emptyUser)
                  \<or> (\<exists>r \<in> set (credentials f).
                        asr_CredentialID a = cred_ID r \<and> asr_User a = cred_User r))"
      using origin by blast
  qed
  from len single multi2 show ?thesis
    by (rule conjI [OF _ conjI])
qed

theorem Assertion_single_user_stripped_witness:
  "Assertion g0 (setUP pin3) ''example.com'' [1] [] ''supersecretpin3''
     \<lparr>as_UP = libfido2_True, as_UV = ''''\<rparr>
     = Returned
         (Inr [\<lparr>asr_AuthDataCBOR = [88, 37, 2], asr_Sig = [70, 2], asr_HMACSecret = Some [],
                asr_CredentialID = [3, 0],
                asr_User = \<lparr>user_ID = [1, 1, 1, 1, 2], user_Name = '''', user_DisplayName = '''',
                            user_Icon = ''''\<rparr>\<rparr>])
         pin3
   \<and> residentAssertions g0 [] (credentials (setUP pin3))
     = [\<lparr>asr_AuthDataCBOR = [88, 37, 2], asr_Sig = [70, 2], asr_HMACSecret = Some [],
         asr_CredentialID = [3, 0],
         asr_User = \<lparr>user_ID = [1, 1, 1, 1, 2], user_Name = ''alpaca'', user_DisplayName = '''',
                     user_Icon = ''''\<rparr>\<rparr>]
   \<and> Assertion g0 (setUP bio2) ''example.com'' [1] [] ''''
       \<lparr>as_UP = libfido2_True, as_UV = libfido2_True\<rparr>
     = Returned
         (Inr [\<lparr>asr_AuthDataCBOR = [88, 37, 2], asr_Sig = [70, 2], asr_HMACSecret = Some [],
                asr_CredentialID = [5, 0], asr_User = llama\<rparr>,
               \<lparr>asr_AuthDataCBOR = [88, 37, 2], asr_Sig = [70, 2], asr_HMACSecret = Some [],
                asr_CredentialID = [5, 1], asr_User = alpaca\<rparr>])
         bio2
   \<and> residentAssertions g0 [] (credentials (setUP bio2))
     = [\<lparr>asr_AuthDataCBOR = [88, 37, 2], asr_Sig = [70, 2], asr_HMACSecret = Some [],
         asr_CredentialID = [5, 0], asr_User = llama\<rparr>,
        \<lparr>asr_AuthDataCBOR = [88, 37, 2], asr_Sig = [70, 2], asr_HMACSecret = Some [],
         asr_CredentialID = [5, 1], asr_User = alpaca\<rparr>]"
proof -
  let ?one = "\<lparr>asr_AuthDataCBOR = [88, 37, 2], asr_Sig = [70, 2], asr_HMACSecret = Some [],
               asr_CredentialID = [3, 0],
               asr_User = \<lparr>user_ID = [1, 1, 1, 1, 2], user_Name = '''', user_DisplayName = '''',
                           user_Icon = ''''\<rparr>\<rparr>"
  let ?a = "\<lparr>asr_AuthDataCBOR = [88, 37, 2], asr_Sig = [70, 2], asr_HMACSecret = Some [],
             asr_CredentialID = [5, 0], asr_User = llama\<rparr>"
  let ?b = "\<lparr>asr_AuthDataCBOR = [88, 37, 2], asr_Sig = [70, 2], asr_HMACSecret = Some [],
             asr_CredentialID = [5, 1], asr_User = alpaca\<rparr>"
  have c1: "Assertion g0 (setUP pin3) ''example.com'' [1] [] ''supersecretpin3''
              \<lparr>as_UP = libfido2_True, as_UV = ''''\<rparr> = Returned (Inr [?one]) pin3"
    by (simp add: Assertion_def fixture_defs device_defs)
  have c2: "Assertion g0 (setUP bio2) ''example.com'' [1] [] ''''
              \<lparr>as_UP = libfido2_True, as_UV = libfido2_True\<rparr> = Returned (Inr [?a, ?b]) bio2"
    by (simp add: Assertion_def fixture_defs device_defs)
  have b1: "baseAssertions g0 (setUP pin3) [] = []" "baseAssertions g0 (setUP bio2) [] = []"
    by (simp_all add: baseAssertions_def)
  have p1: "isBio (setUP pin3) \<or> (''supersecretpin3'' \<noteq> (''''::string)
              \<and> as_UP \<lparr>as_UP = libfido2_True, as_UV = ''''\<rparr> = libfido2_True)"
    by simp
  have p2: "isBio (setUP bio2)"
    by (simp add: fixture_defs device_defs)
  have r2: "residentAssertions g0 [] (credentials (setUP bio2)) = [?a, ?b]"
    using Assertion_single_user_stripped [OF c2] b1 p2 by simp
  have l1: "length (residentAssertions g0 [] (credentials (setUP pin3))) = 1"
    using Assertion_single_user_stripped [OF c1] b1 p1 by simp
  have "hd (residentAssertions g0 [] (credentials (setUP pin3)))
          = ?one\<lparr>asr_User := (asr_User ?one)\<lparr>user_Name := ''alpaca''\<rparr>\<rparr>"
    by (simp add: fixture_defs device_defs)
  then have r1: "residentAssertions g0 [] (credentials (setUP pin3))
              = [?one\<lparr>asr_User := (asr_User ?one)\<lparr>user_Name := ''alpaca''\<rparr>\<rparr>]"
    using l1 by (cases "residentAssertions g0 [] (credentials (setUP pin3))") simp_all
  show ?thesis
    using c1 c2 r1 r2 by simp
qed

text \<open>
  C9, as amended. On a device with a configured PIN, a \<open>MakeCredential\<close> call that passes
  the argument and option checks (with UV requested or not) has its PIN argument
  validated before the device waits for user presence: a mismatched non-empty PIN yields
  PinInvalid, and an empty PIN yields PinRequired unless the device is biometric. The
  error is returned whatever the touch and cancel flags are, and leaves them as they were.
\<close>

theorem MakeCredential_validates_PIN_first:
  assumes "cdh \<noteq> []" and "rp_ID rp \<noteq> ''''" and "ctype = ES256"
    and "mc_UV opts \<noteq> libfido2_False"
    and "mc_UV opts = libfido2_True \<longrightarrow> hasUV f"
    and "mc_RK opts = libfido2_True \<longrightarrow> hasRK f"
    and "pin f \<noteq> ''''"
  shows "(p = '''' \<and> \<not> isBio f \<longrightarrow>
            MakeCredential g f cdh rp user ctype p opts rnd = Returned (Inl ErrPinRequired) f)
       \<and> (p \<noteq> '''' \<and> p \<noteq> pin f \<longrightarrow>
            MakeCredential g f cdh rp user ctype p opts rnd = Returned (Inl ErrPinInvalid) f)"
  using assms by (auto simp: MakeCredential_def validatePIN_def)

theorem MakeCredential_validates_PIN_first_witness:
  "MakeCredential g0 pin1 [1] \<lparr>rp_ID = ''example.com'', rp_Name = ''''\<rparr> emptyUser ES256
     '''' \<lparr>mc_RK = '''', mc_UV = ''''\<rparr> (Inr [9]) = Returned (Inl ErrPinRequired) pin1
   \<and> MakeCredential g0 (setUP bio1) [1] \<lparr>rp_ID = ''example.com'', rp_Name = ''''\<rparr> emptyUser ES256
     ''wrong'' \<lparr>mc_RK = '''', mc_UV = ''''\<rparr> (Inr [9]) = Returned (Inl ErrPinInvalid) (setUP bio1)"
  using MakeCredential_validates_PIN_first [where f = pin1 and g = g0 and cdh = "[1]"
      and rp = "\<lparr>rp_ID = ''example.com'', rp_Name = ''''\<rparr>" and ctype = ES256 and user = emptyUser
      and opts = "\<lparr>mc_RK = '''', mc_UV = ''''\<rparr>" and rnd = "Inr [9]" and p = "''''"]
    MakeCredential_validates_PIN_first [where f = "setUP bio1" and g = g0 and cdh = "[1]"
      and rp = "\<lparr>rp_ID = ''example.com'', rp_Name = ''''\<rparr>" and ctype = ES256 and user = emptyUser
      and opts = "\<lparr>mc_RK = '''', mc_UV = ''''\<rparr>" and rnd = "Inr [9]" and p = "''wrong''"]
  by (simp add: fixture_defs option_defs setUP_def)

text \<open>
  C9 as stated fails on a biometric authenticator: \<open>bio1\<close> has a PIN configured, and
  \<open>MakeCredential\<close> with an empty PIN argument returns an attestation, not PinRequired.
\<close>

theorem MakeCredential_empty_PIN_on_bio:
  "pin (setUP bio1) \<noteq> ''''
   \<and> MakeCredential g0 (setUP bio1) [1] \<lparr>rp_ID = ''example.com'', rp_Name = ''''\<rparr> emptyUser ES256
       '''' \<lparr>mc_RK = '''', mc_UV = ''''\<rparr> (Inr [9])
     = Returned
         (Inr \<lparr>att_ClientDataHash = [1], att_AuthData = [88, 37, 1], att_CredentialID = [10, 4],
               att_CredentialType = ES256, att_PubKey = [12, 4], att_Cert = Some [11, 4],
               att_Sig = Some [70, 1], att_Format = ''packed''\<rparr>)
         bio1"
  by (simp add: MakeCredential_def fixture_defs device_defs)



section \<open>Properties of the ceremonies\<close>

lemmas engine_fixture_defs =
  eng0_def pwdlessAssertion_def mfaAssertion_def mfaE_def mfaBoth_def pinT_def bioT_def bioE_def
  plugged_def

lemmas prompt_defs = PromptTouch_def PromptPIN_def PromptCredential_def

lemmas login_defs =
  FIDO2Login_def validateLogin_def loginCeremony_def loginPasswordless_def loginMFA_def
  loginWithPIN_def finishLogin_def pickAssertion_def assembleLogin_def pwdlessCall_def mfaCall_def
  discoverLogin_def discoverRPID_def probe_def needsPIN_def noWinner_def expire_def
  toLoginError_def mostSpecific_def maxUVRetries_def touchless_def abortSibling_def
  cancelInFlight_def observe_def retained_def failures_def

subsection \<open>INIT\<close>

lemma loginOffends_cases:
  "loginOffends x origin assertion prompt \<Longrightarrow>
     origin = '''' \<or> assertion = None \<or> prompt = None
     \<or> (\<exists>a. assertion = Some a \<and> (ca_Challenge a = [] \<or> ca_RelyingPartyID a = ''''))"
  by (cases x) (auto split: option.splits)

lemma registerOffends_cases:
  "registerOffends x origin cc prompt \<Longrightarrow>
     origin = '''' \<or> cc = None \<or> prompt = None
     \<or> (\<exists>c. cc = Some c \<and> (cc_Challenge c = [] \<or> rp_ID (cc_RelyingParty c) = ''''
                              \<or> ES256 \<notin> set (cc_Parameters c)))"
  by (cases x) (auto split: option.splits)

lemma validateLogin_rejects:
  assumes "loginOffends y origin assertion prompt"
  shows "\<exists>x. loginOffends x origin assertion prompt
             \<and> validateLogin origin assertion prompt = Inl (InvalidArgument x)"
proof (cases "origin = ''''")
  case True
  then have "loginOffends Origin origin assertion prompt"
    and "validateLogin origin assertion prompt = Inl (InvalidArgument Origin)"
    by (simp_all add: validateLogin_def)
  then show ?thesis by blast
next
  case origin: False
  show ?thesis
  proof (cases assertion)
    case None
    then have "loginOffends AssertionRecord origin assertion prompt"
      and "validateLogin origin assertion prompt = Inl (InvalidArgument AssertionRecord)"
      using origin by (simp_all add: validateLogin_def)
    then show ?thesis by blast
  next
    case (Some a)
    consider "ca_Challenge a = []"
      | "ca_Challenge a \<noteq> []" "ca_RelyingPartyID a = ''''"
      | "ca_Challenge a \<noteq> []" "ca_RelyingPartyID a \<noteq> ''''" "prompt = None"
      using loginOffends_cases [OF assms] origin Some by auto
    then show ?thesis
    proof cases
      case 1
      then have "loginOffends Challenge origin assertion prompt"
        and "validateLogin origin assertion prompt = Inl (InvalidArgument Challenge)"
        using origin Some by (simp_all add: validateLogin_def)
      then show ?thesis by blast
    next
      case 2
      then have "loginOffends RelyingPartyID origin assertion prompt"
        and "validateLogin origin assertion prompt = Inl (InvalidArgument RelyingPartyID)"
        using origin Some by (simp_all add: validateLogin_def)
      then show ?thesis by blast
    next
      case 3
      then have "loginOffends Prompt origin assertion prompt"
        and "validateLogin origin assertion prompt = Inl (InvalidArgument Prompt)"
        using origin Some by (simp_all add: validateLogin_def)
      then show ?thesis by blast
    qed
  qed
qed

lemma validateRegister_rejects:
  assumes "registerOffends y origin cc prompt"
  shows "\<exists>x. registerOffends x origin cc prompt
             \<and> validateRegister origin cc prompt = Inl (InvalidArgument x)"
proof (cases "origin = ''''")
  case True
  then have "registerOffends Origin origin cc prompt"
    and "validateRegister origin cc prompt = Inl (InvalidArgument Origin)"
    by (simp_all add: validateRegister_def)
  then show ?thesis by blast
next
  case origin: False
  show ?thesis
  proof (cases cc)
    case None
    then have "registerOffends CreationRecord origin cc prompt"
      and "validateRegister origin cc prompt = Inl (InvalidArgument CreationRecord)"
      using origin by (simp_all add: validateRegister_def)
    then show ?thesis by blast
  next
    case (Some c)
    consider "cc_Challenge c = []"
      | "cc_Challenge c \<noteq> []" "rp_ID (cc_RelyingParty c) = ''''"
      | "cc_Challenge c \<noteq> []" "rp_ID (cc_RelyingParty c) \<noteq> ''''" "ES256 \<notin> set (cc_Parameters c)"
      | "cc_Challenge c \<noteq> []" "rp_ID (cc_RelyingParty c) \<noteq> ''''" "ES256 \<in> set (cc_Parameters c)"
        "prompt = None"
      using registerOffends_cases [OF assms] origin Some by auto
    then show ?thesis
    proof cases
      case 1
      then have "registerOffends Challenge origin cc prompt"
        and "validateRegister origin cc prompt = Inl (InvalidArgument Challenge)"
        using origin Some by (simp_all add: validateRegister_def)
      then show ?thesis by blast
    next
      case 2
      then have "registerOffends RelyingPartyID origin cc prompt"
        and "validateRegister origin cc prompt = Inl (InvalidArgument RelyingPartyID)"
        using origin Some by (simp_all add: validateRegister_def)
      then show ?thesis by blast
    next
      case 3
      then have "registerOffends CredentialParameters origin cc prompt"
        and "validateRegister origin cc prompt = Inl (InvalidArgument CredentialParameters)"
        using origin Some by (simp_all add: validateRegister_def)
      then show ?thesis by blast
    next
      case 4
      then have "registerOffends Prompt origin cc prompt"
        and "validateRegister origin cc prompt = Inl (InvalidArgument Prompt)"
        using origin Some by (simp_all add: validateRegister_def)
      then show ?thesis by blast
    qed
  qed
qed

text \<open>
  C6. A login or a registration with an empty origin, a nil record, an empty challenge,
  an empty relying-party ID or a nil prompt is rejected with an invalid-argument error
  that names one of the offending arguments, and so is a registration whose credential
  parameters lack ES256; nothing has been prompted and no device has been called (the
  world is returned as it was). A registration that is otherwise complete up to there and
  lacks ES256 is rejected with the error naming the credential parameters.
\<close>

theorem INIT_rejects:
  "((\<exists>x. loginOffends x origin assertion prompt) \<longrightarrow>
      (\<exists>x. loginOffends x origin assertion prompt
          \<and> FIDO2Login eng origin assertion prompt user w = Some (Inl (InvalidArgument x), w)))
   \<and> ((\<exists>x. registerOffends x origin cc prompt) \<longrightarrow>
      (\<exists>x. registerOffends x origin cc prompt
          \<and> FIDO2Register eng origin cc prompt rnd w = Some (Inl (InvalidArgument x), w)))
   \<and> (origin \<noteq> '''' \<and> cc = Some c \<and> cc_Challenge c \<noteq> [] \<and> rp_ID (cc_RelyingParty c) \<noteq> ''''
        \<and> ES256 \<notin> set (cc_Parameters c) \<longrightarrow>
      FIDO2Register eng origin cc prompt rnd w
        = Some (Inl (InvalidArgument CredentialParameters), w))"
proof -
  have login: "\<exists>x. loginOffends x origin assertion prompt
                 \<and> FIDO2Login eng origin assertion prompt user w = Some (Inl (InvalidArgument x), w)"
    if "\<exists>x. loginOffends x origin assertion prompt"
  proof -
    from that obtain y where "loginOffends y origin assertion prompt" ..
    from validateLogin_rejects [OF this] obtain x where
      "loginOffends x origin assertion prompt"
      "validateLogin origin assertion prompt = Inl (InvalidArgument x)"
      by blast
    then show ?thesis
      by (auto simp: FIDO2Login_def)
  qed
  have register: "\<exists>x. registerOffends x origin cc prompt
                 \<and> FIDO2Register eng origin cc prompt rnd w = Some (Inl (InvalidArgument x), w)"
    if "\<exists>x. registerOffends x origin cc prompt"
  proof -
    from that obtain y where "registerOffends y origin cc prompt" ..
    from validateRegister_rejects [OF this] obtain x where
      "registerOffends x origin cc prompt"
      "validateRegister origin cc prompt = Inl (InvalidArgument x)"
      by blast
    then show ?thesis
      by (auto simp: FIDO2Register_def)
  qed
  have es256: "FIDO2Register eng origin cc prompt rnd w
                 = Some (Inl (InvalidArgument CredentialParameters), w)"
    if "origin \<noteq> ''''" "cc = Some c" "cc_Challenge c \<noteq> []" "rp_ID (cc_RelyingParty c) \<noteq> ''''"
       "ES256 \<notin> set (cc_Parameters c)"
    using that by (simp add: FIDO2Register_def validateRegister_def)
  show ?thesis
    using login register es256 by blast
qed

theorem INIT_rejects_witness:
  "(\<exists>x. loginOffends x ''https://example.com'' (Some (pwdlessAssertion\<lparr>ca_Challenge := []\<rparr>))
           (Some NoopPrompt)
       \<and> FIDO2Login eng0 ''https://example.com'' (Some (pwdlessAssertion\<lparr>ca_Challenge := []\<rparr>))
           (Some NoopPrompt) '''' (plugged [bioT])
         = Some (Inl (InvalidArgument x), plugged [bioT]))
   \<and> FIDO2Register eng0 ''https://example.com''
       (Some \<lparr>cc_Challenge = [1, 2, 3], cc_RelyingParty = \<lparr>rp_ID = ''example.com'', rp_Name = ''''\<rparr>,
              cc_User = emptyUser, cc_Parameters = [EDDSA], cc_ExcludeList = [],
              cc_RequireResidentKey = False, cc_UserVerification = VerificationDiscouraged\<rparr>)
       (Some NoopPrompt) (Inr [9]) (plugged [bioT])
     = Some (Inl (InvalidArgument CredentialParameters), plugged [bioT])"
proof -
  let ?a = "pwdlessAssertion\<lparr>ca_Challenge := []\<rparr>"
  let ?c = "\<lparr>cc_Challenge = [1, 2, 3], cc_RelyingParty = \<lparr>rp_ID = ''example.com'', rp_Name = ''''\<rparr>,
              cc_User = emptyUser, cc_Parameters = [EDDSA], cc_ExcludeList = [],
              cc_RequireResidentKey = False, cc_UserVerification = VerificationDiscouraged\<rparr>"
  have "loginOffends Challenge ''https://example.com'' (Some ?a) (Some NoopPrompt)"
    by simp
  then have off: "\<exists>x. loginOffends x ''https://example.com'' (Some ?a) (Some NoopPrompt)"
    by blast
  have pre: "''https://example.com'' \<noteq> '''' \<and> Some ?c = Some ?c \<and> cc_Challenge ?c \<noteq> []
               \<and> rp_ID (cc_RelyingParty ?c) \<noteq> '''' \<and> ES256 \<notin> set (cc_Parameters ?c)"
    by simp
  show ?thesis
    using INIT_rejects [where origin = "''https://example.com''" and assertion = "Some ?a"
        and prompt = "Some NoopPrompt" and eng = eng0 and user = "''''" and w = "plugged [bioT]"
        and cc = "Some ?c" and c = ?c and rnd = "Inr [9]"] off pre
    by blast
qed

subsection \<open>The UV retry\<close>



subsection \<open>Prompts and counters\<close>

lemma PromptTouch_fields:
  "touchCount (PromptTouch pr w) = Suc (touchCount w)"
  "pinCount (PromptTouch pr w) = pinCount w"
  "cancelled (PromptTouch pr w) = cancelled w"
  "hasDeadline (PromptTouch pr w) = hasDeadline w"
  "length (devices (PromptTouch pr w)) = length (devices w)"
  by (simp_all add: PromptTouch_def Let_def split: LoginPrompt.splits)

lemma PromptPIN_fields:
  "touchCount (snd (PromptPIN pr w)) = touchCount w"
  "pinCount (snd (PromptPIN pr w)) = Suc (pinCount w)"
  "hasDeadline (snd (PromptPIN pr w)) = hasDeadline w"
  "devices (snd (PromptPIN pr w)) = devices w"
  by (simp_all add: PromptPIN_def Let_def split: LoginPrompt.splits)

lemma PromptPIN_cancels:
  "PromptPIN (PinCancelPrompt p) w = (p, w\<lparr>pinCount := Suc (pinCount w), cancelled := True\<rparr>)"
  by (simp add: PromptPIN_def)

lemma noWinner_result:
  "noWinner w es fl = Some (r, w') \<Longrightarrow> w' = w \<and> (\<exists>e. r = Inl e)"
  by (auto simp: noWinner_def expire_def split: if_splits)

lemma noWinner_deadline: "hasDeadline w \<Longrightarrow> noWinner w es fl \<noteq> None"
  by (simp add: noWinner_def expire_def)

lemma finishLogin_result:
  "finishLogin cd c i user as w = Some (r, w') \<Longrightarrow> w' = w"
  by (auto simp: finishLogin_def split: sum.splits)

lemma finishLogin_returns: "finishLogin cd c i user as w \<noteq> None"
  by (simp add: finishLogin_def split: sum.splits)

subsection \<open>Cancellation after the PIN prompt\<close>

lemma loginWithPIN_cancelled:
  "loginWithPIN g cd cdh (PinCancelPrompt p) user c i w
     = Some (Inl Canceled, w\<lparr>pinCount := Suc (pinCount w), cancelled := True\<rparr>)"
  by (simp add: loginWithPIN_def PromptPIN_cancels)

lemma loginPasswordless_PinCancel:
  assumes "loginPasswordless g cd cdh (PinCancelPrompt p) user cs w = Some (r, w')"
    and "pinCount w' \<noteq> pinCount w"
  shows "r = Inl Canceled \<and> touchCount w' = Suc (touchCount w) \<and> cancelled w'"
proof -
  let ?w1 = "PromptTouch (PinCancelPrompt p) w"
  show ?thesis
  proof (cases "race (pwdlessCall g cdh) (zip (devices ?w1) cs)")
    case (NoWinner ds es fl)
    then have "noWinner (?w1\<lparr>devices := ds\<rparr>) es fl = Some (r, w')"
      using assms(1) by (simp add: loginPasswordless_def Let_def)
    then have "w' = ?w1\<lparr>devices := ds\<rparr>"
      using noWinner_result by blast
    then show ?thesis
      using assms(2) by (simp add: PromptTouch_fields)
  next
    case (Winner i c sel ds)
    show ?thesis
    proof (cases sel)
      case (Verified as)
      then have "finishLogin cd c i user as (?w1\<lparr>devices := ds\<rparr>) = Some (r, w')"
        using assms(1) Winner by (simp add: loginPasswordless_def Let_def)
      then have "w' = ?w1\<lparr>devices := ds\<rparr>"
        using finishLogin_result by blast
      then show ?thesis
        using assms(2) by (simp add: PromptTouch_fields)
    next
      case Selected
      then have "loginWithPIN g cd cdh (PinCancelPrompt p) user c i (?w1\<lparr>devices := ds\<rparr>)
                   = Some (r, w')"
        using assms(1) Winner by (simp add: loginPasswordless_def Let_def)
      then show ?thesis
        by (auto simp: loginWithPIN_cancelled PromptTouch_fields)
    qed
  qed
qed

lemma loginPasswordless_PinCancel_returns:
  assumes "hasDeadline w"
  shows "loginPasswordless g cd cdh (PinCancelPrompt p) user cs w \<noteq> None"
proof -
  let ?w1 = "PromptTouch (PinCancelPrompt p) w"
  show ?thesis
  proof (cases "race (pwdlessCall g cdh) (zip (devices ?w1) cs)")
    case (NoWinner ds es fl)
    have "hasDeadline (?w1\<lparr>devices := ds\<rparr>)"
      using assms by (simp add: PromptTouch_fields)
    then have "noWinner (?w1\<lparr>devices := ds\<rparr>) es fl \<noteq> None"
      by (rule noWinner_deadline)
    then show ?thesis
      using NoWinner by (simp add: loginPasswordless_def Let_def)
  next
    case (Winner i c sel ds)
    then show ?thesis
      by (cases sel)
         (simp_all add: loginPasswordless_def Let_def loginWithPIN_cancelled finishLogin_returns)
  qed
qed

text \<open>
  C7. In a passwordless login whose prompt cancels the context while answering the PIN
  (\<open>pinCancelPrompt\<close>): the call returns whenever the context has a deadline, and a call
  in which the PIN prompt was answered returns the Cancelled error with the context
  cancelled and a single touch prompt delivered, the one of device selection; the second
  touch prompt is never issued.
\<close>

theorem cancel_after_PIN:
  assumes "ca_AllowedCredentials a = []"
  shows "(hasDeadline w \<longrightarrow>
            FIDO2Login eng origin (Some a) (Some (PinCancelPrompt p)) user w \<noteq> None)
       \<and> (\<forall>r w'. FIDO2Login eng origin (Some a) (Some (PinCancelPrompt p)) user w = Some (r, w')
                    \<and> pinCount w' \<noteq> pinCount w
                  \<longrightarrow> r = Inl Canceled \<and> touchCount w' = Suc (touchCount w) \<and> cancelled w')"
proof (cases "validateLogin origin (Some a) (Some (PinCancelPrompt p))")
  case (Inl e)
  then show ?thesis
    by (auto simp: FIDO2Login_def)
next
  case (Inr ap)
  then have ap: "ap = (a, PinCancelPrompt p)"
    by (auto simp: validateLogin_def split: if_splits)
  let ?cd = "\<lparr>cd_Type = ''webauthn.get'', cd_Challenge = ca_Challenge a, cd_Origin = origin\<rparr>"
  let ?found = "map (discoverLogin (eng_globals eng) a (eng_sha256 eng ?cd)) (devices w)"
  let ?w0 = "w\<lparr>devices := map fst ?found\<rparr>"
  let ?run = "loginPasswordless (eng_globals eng) ?cd (eng_sha256 eng ?cd) (PinCancelPrompt p) user
                (map (\<lambda>r. retained (snd r)) ?found) ?w0"
  have cer: "loginCeremony eng origin a (PinCancelPrompt p) user w = ?run"
    using assms by (simp add: loginCeremony_def Let_def)
  have total: "hasDeadline w \<longrightarrow>
            FIDO2Login eng origin (Some a) (Some (PinCancelPrompt p)) user w \<noteq> None"
  proof
    assume "hasDeadline w"
    then have "hasDeadline ?w0" by simp
    then have "?run \<noteq> None"
      by (rule loginPasswordless_PinCancel_returns)
    then show "FIDO2Login eng origin (Some a) (Some (PinCancelPrompt p)) user w \<noteq> None"
      using Inr ap cer by (auto simp: FIDO2Login_def split: option.splits sum.splits prod.splits)
  qed
  have canc: "r = Inl Canceled \<and> touchCount w' = Suc (touchCount w) \<and> cancelled w'"
    if "FIDO2Login eng origin (Some a) (Some (PinCancelPrompt p)) user w = Some (r, w')"
      and "pinCount w' \<noteq> pinCount w" for r w'
  proof -
    from that(1) obtain r0 where run: "?run = Some (r0, w')"
      and r: "r = (case r0 of Inl e \<Rightarrow> Inl e | Inr lo \<Rightarrow> Inr (lo_Response lo, lo_User lo))"
      using Inr ap cer
      by (auto simp: FIDO2Login_def split: option.splits sum.splits prod.splits)
    have "pinCount w' \<noteq> pinCount ?w0"
      using that(2) by simp
    from loginPasswordless_PinCancel [OF run this]
    show ?thesis
      using r by simp
  qed
  show ?thesis
    using total canc by blast
qed

theorem cancel_after_PIN_witness:
  "FIDO2Login eng0 ''https://example.com'' (Some pwdlessAssertion)
     (Some (PinCancelPrompt ''supersecretpin3'')) '''' (plugged [setUP pin3, bio2])
     = Some (Inl Canceled,
             \<lparr>devices = [pin3, bio2], hasDeadline = True, cancelled = True, touchCount = 1,
              pinCount = 1\<rparr>)
   \<and> touchCount \<lparr>devices = [pin3, bio2], hasDeadline = True, cancelled = True, touchCount = 1,
                  pinCount = 1\<rparr>
     = Suc (touchCount (plugged [setUP pin3, bio2]))"
proof -
  let ?w' = "\<lparr>devices = [pin3, bio2], hasDeadline = True, cancelled = True, touchCount = 1,
              pinCount = 1\<rparr>"
  have pw: "ca_AllowedCredentials pwdlessAssertion = []"
    by (simp add: pwdlessAssertion_def)
  have dl: "hasDeadline (plugged [setUP pin3, bio2])"
    by (simp add: plugged_def)
  have answered: "pinCount ?w' \<noteq> pinCount (plugged [setUP pin3, bio2])"
    by (simp add: plugged_def)
  note inst = cancel_after_PIN [OF pw, where w = "plugged [setUP pin3, bio2]" and eng = eng0
      and origin = "''https://example.com''" and p = "''supersecretpin3''" and user = "''''"]
  from inst dl obtain r w' where
    ret: "FIDO2Login eng0 ''https://example.com'' (Some pwdlessAssertion)
            (Some (PinCancelPrompt ''supersecretpin3'')) '''' (plugged [setUP pin3, bio2])
          = Some (r, w')"
    by fastforce
  have run: "FIDO2Login eng0 ''https://example.com'' (Some pwdlessAssertion)
               (Some (PinCancelPrompt ''supersecretpin3'')) '''' (plugged [setUP pin3, bio2])
             = Some (Inl Canceled, ?w')"
    by (simp add: login_defs prompt_defs fixture_defs engine_fixture_defs device_defs
          Assertion_def Let_def numeral_3_eq_3)
  from inst run answered
  have "touchCount ?w' = Suc (touchCount (plugged [setUP pin3, bio2]))"
    by blast
  then show ?thesis
    using run ret by simp
qed

subsection \<open>Devices along a ceremony\<close>

lemma kept_refl: "kept d d"
  by (simp add: kept_def)

lemma kept_trans: "kept d d' \<Longrightarrow> kept d' d'' \<Longrightarrow> kept d d''"
  by (simp add: kept_def)

lemma kept_same:
  assumes "kept d d'"
  shows "credentials d' = credentials d" and "keyHandle d' = keyHandle d"
    and "info d' = info d" and "u2fOnly d' = u2fOnly d" and "pin d' = pin d"
    and "path d' = path d"
  using assms by (simp_all add: kept_def)

lemma kept_setUP: "kept d (setUP d)"
  by (simp add: kept_def setUP_def)

lemma kept_cancelInFlight: "kept d (cancelInFlight d)"
  by (simp add: kept_def cancelInFlight_def)

lemma maybeLock_kept: "maybeLockUntilInteraction d wantUP = Returned r d' \<Longrightarrow> kept d d'"
  by (auto simp: maybeLockUntilInteraction_def kept_def Let_def split: if_splits)

lemma Assertion_kept: "Assertion g d rp cdh ids p opts = Returned r d' \<Longrightarrow> kept d d'"
  by (auto simp: Assertion_def Let_def kept_refl kept_def
           split: list.splits if_splits option.splits outcome.splits sum.splits
           dest!: maybeLock_kept)

lemma probe_kept: "kept d d' \<Longrightarrow> probe d' = probe d"
  by (simp add: probe_def Info_def kept_same)

lemma retryUV_Assertion:
  "retryUV n (\<lambda>x. Assertion g x rp cdh ids p opts) d = Returned (Inr as) d' \<Longrightarrow>
     \<exists>d0. kept d d0 \<and> Assertion g d0 rp cdh ids p opts = Returned (Inr as) d'"
proof (induction n arbitrary: d)
  case 0
  then show ?case
    using kept_refl by auto
next
  case (Suc n)
  show ?case
  proof (cases "Assertion g d rp cdh ids p opts")
    case Blocked
    then show ?thesis using Suc.prems by simp
  next
    case (Returned r d1)
    show ?thesis
    proof (cases r)
      case (Inr a)
      then show ?thesis
        using Suc.prems Returned kept_refl by auto
    next
      case (Inl e)
      then have "retryUV n (\<lambda>x. Assertion g x rp cdh ids p opts) d1 = Returned (Inr as) d'"
        using Suc.prems Returned by (simp split: if_splits)
      from Suc.IH [OF this] obtain d0 where
        "kept d1 d0" "Assertion g d0 rp cdh ids p opts = Returned (Inr as) d'"
        by blast
      moreover have "kept d d1"
        using Returned by (rule Assertion_kept)
      ultimately show ?thesis
        using kept_trans by blast
    qed
  qed
qed

lemma retryUV_kept:
  "retryUV n (\<lambda>x. Assertion g x rp cdh ids p opts) d = Returned r d' \<Longrightarrow> kept d d'"
proof (induction n arbitrary: d)
  case 0
  then show ?case
    using Assertion_kept by simp
next
  case (Suc n)
  show ?case
  proof (cases "Assertion g d rp cdh ids p opts")
    case Blocked
    then show ?thesis using Suc.prems by simp
  next
    case (Returned r1 d1)
    then have k1: "kept d d1"
      by (rule Assertion_kept)
    show ?thesis
    proof (cases "r1 = Inl (Libfido2Error 63)")
      case True
      then have "retryUV n (\<lambda>x. Assertion g x rp cdh ids p opts) d1 = Returned r d'"
        using Suc.prems Returned by simp
      from Suc.IH [OF this] show ?thesis
        using k1 kept_trans by blast
    next
      case False
      then have "d' = d1"
        using Suc.prems Returned by (cases r1) (auto split: if_splits)
      then show ?thesis using k1 by simp
    qed
  qed
qed

lemma PromptTouch_kept:
  "i < length (devices w) \<Longrightarrow> kept (devices w ! i) (devices (PromptTouch pr w) ! i)"
  by (cases pr) (simp_all add: PromptTouch_def Let_def kept_refl kept_setUP)

lemma discoverRPID_kept: "discoverRPID g d rp appid cdh allowed = (d', r) \<Longrightarrow> kept d d'"
  by (auto simp: discoverRPID_def kept_refl
           split: outcome.splits sum.splits option.splits if_splits
           dest!: retryUV_kept intro: kept_trans)

lemma discoverLogin_kept: "kept d (fst (discoverLogin g a cdh d))"
proof (cases "probe d")
  case None
  then show ?thesis by (simp add: discoverLogin_def kept_refl)
next
  case (Some k)
  show ?thesis
  proof (cases "ca_AllowedCredentials a = []")
    case True
    then show ?thesis using Some by (simp add: discoverLogin_def kept_refl)
  next
    case False
    obtain d' r where dr: "discoverRPID g d (ca_RelyingPartyID a) (ca_AppID a) cdh
                             (ca_AllowedCredentials a) = (d', r)"
      by (cases "discoverRPID g d (ca_RelyingPartyID a) (ca_AppID a) cdh (ca_AllowedCredentials a)")
    then have "fst (discoverLogin g a cdh d) = d'"
      using Some False by (auto simp: discoverLogin_def split: found.splits prod.splits)
    then show ?thesis
      using discoverRPID_kept [OF dr] by simp
  qed
qed

lemma retained_Some: "retained r = Some c \<longleftrightarrow> r = Retained c"
  by (cases r) (simp_all add: retained_def)

lemma discoverLogin_kind:
  "snd (discoverLogin g a cdh d) = Retained c \<Longrightarrow> probe d = Some (cand_kind c)"
  by (auto simp: discoverLogin_def split: option.splits if_splits prod.splits found.splits)

lemma discoverLogin_passwordless:
  "ca_AllowedCredentials a = [] \<Longrightarrow> snd (discoverLogin g a cdh d) = Retained c \<Longrightarrow>
     cand_kind c = Biometric \<or> cand_kind c = PINProtected"
  by (auto simp: discoverLogin_def split: option.splits if_splits)

subsection \<open>The winner of a race\<close>

lemma race_Winner:
  "race call xs = Winner i c a ds \<Longrightarrow>
     i < length xs \<and> length ds = length xs \<and> snd (xs ! i) = Some c
     \<and> call (fst (xs ! i)) c = Returned (Inr a) (ds ! i)"
proof (induction xs arbitrary: i ds)
  case Nil
  then show ?case by simp
next
  case (Cons x xs)
  obtain d co where x: "x = (d, co)"
    by (cases x)
  show ?case
  proof (cases co)
    case None
    then obtain j ds' where "race call xs = Winner j c a ds'" "i = Suc j" "ds = d # ds'"
      using Cons.prems x by (auto split: raced.splits)
    then show ?thesis
      using Cons.IH [of j ds'] by simp
  next
    case (Some c0)
    show ?thesis
    proof (cases "call d c0")
      case Blocked
      then obtain j ds' where "race call xs = Winner j c a ds'" "i = Suc j"
          "ds = cancelInFlight d # ds'"
        using Cons.prems x Some by (auto split: raced.splits)
      then show ?thesis
        using Cons.IH [of j ds'] by simp
    next
      case (Returned r d')
      show ?thesis
      proof (cases r)
        case (Inl e)
        then obtain j ds' where "race call xs = Winner j c a ds'" "i = Suc j" "ds = d' # ds'"
          using Cons.prems x Some Returned by (auto split: raced.splits)
        then show ?thesis
          using Cons.IH [of j ds'] by simp
      next
        case (Inr b)
        then have "i = 0" "c = c0" "a = b" "ds = d' # map abortSibling xs"
          using Cons.prems x Some Returned by simp_all
        then show ?thesis
          using x Some Returned Inr by simp
      qed
    qed
  qed
qed

lemma race_zip_Winner:
  assumes "race call (zip ds0 cs) = Winner i c a ds"
  shows "i < length ds0" and "i < length cs" and "cs ! i = Some c"
    and "call (ds0 ! i) c = Returned (Inr a) (ds ! i)" and "i < length ds"
  using race_Winner [OF assms] by auto

subsection \<open>The assertion behind a successful login\<close>

lemma pickAssertion_mem: "pickAssertion user as = Inr x \<Longrightarrow> x \<in> set as"
  by (auto simp: pickAssertion_def PromptCredential_def
           split: list.splits if_splits option.splits dest: find_Some_iff [THEN iffD1])

lemma finishLogin_success:
  assumes "finishLogin cd c i user as w = Some (Inr lo, w')"
  obtains x where "x \<in> set as" and "lo = assembleLogin cd c i x" and "w' = w"
    and "pickAssertion user as = Inr x"
  using assms by (auto simp: finishLogin_def split: sum.splits dest: pickAssertion_mem)

lemma pwdlessCall_Verified:
  assumes "pwdlessCall g cdh d c = Returned (Inr (Verified as)) d'"
  shows "cand_kind c = Biometric"
    and "retryUV maxUVRetries
           (\<lambda>x. Assertion g x (cand_rp c) cdh [] ''''
                   \<lparr>as_UP = libfido2_True, as_UV = libfido2_True\<rparr>) d = Returned (Inr as) d'"
  using assms
  by (auto simp: pwdlessCall_def split: if_splits outcome.splits sum.splits)

lemma pwdlessCall_Selected:
  assumes "pwdlessCall g cdh d c = Returned (Inr Selected) d'"
  shows "cand_kind c \<noteq> Biometric" and "kept d d'"
  using assms
  by (auto simp: pwdlessCall_def split: if_splits outcome.splits sum.splits dest: retryUV_kept)

lemma loginWithPIN_winner:
  assumes "loginWithPIN g cd cdh pr user c i w = Some (Inr lo, w')"
  obtains d0 d' p opts as x where
    "i < length (devices w)" and "kept (devices w ! i) d0"
    and "Assertion g d0 (cand_rp c) cdh [] p opts = Returned (Inr as) d'"
    and "x \<in> set as" and "lo = assembleLogin cd c i x"
    and "touchCount w' = Suc (touchCount w)"
    and "pickAssertion user as = Inr x"
proof -
  obtain p w2 where pin: "PromptPIN pr w = (p, w2)"
    by (cases "PromptPIN pr w")
  then have w2: "devices w2 = devices w" "touchCount w2 = touchCount w"
    using PromptPIN_fields(1,4) [of pr w] by simp_all
  let ?w3 = "PromptTouch pr w2"
  let ?opts = "\<lparr>as_UP = libfido2_True, as_UV = libfido2_Default\<rparr>"
  have len: "i < length (devices ?w3)"
    using assms pin by (auto simp: loginWithPIN_def Let_def split: if_splits)
  then have i: "i < length (devices w)"
    using w2 by (simp add: PromptTouch_fields)
  from assms pin len obtain as d' where
    call: "retryUV maxUVRetries (\<lambda>x. Assertion g x (cand_rp c) cdh [] p ?opts) (devices ?w3 ! i)
             = Returned (Inr as) d'"
    and fin: "finishLogin cd c i user as (?w3\<lparr>devices := (devices ?w3)[i := d']\<rparr>)
                = Some (Inr lo, w')"
    by (auto simp: loginWithPIN_def Let_def expire_def
             split: if_splits outcome.splits sum.splits)
  from retryUV_Assertion [OF call] obtain d0 where
    d0: "kept (devices ?w3 ! i) d0"
    and asr: "Assertion g d0 (cand_rp c) cdh [] p ?opts = Returned (Inr as) d'"
    by blast
  have "kept (devices w2 ! i) (devices ?w3 ! i)"
    using PromptTouch_kept [of i w2 pr] i w2 by simp
  then have "kept (devices w ! i) (devices ?w3 ! i)"
    using w2 by simp
  then have k: "kept (devices w ! i) d0"
    using d0 by (rule kept_trans)
  from fin obtain x where
    x: "x \<in> set as" "lo = assembleLogin cd c i x"
    and w': "w' = ?w3\<lparr>devices := (devices ?w3)[i := d']\<rparr>"
    and pick: "pickAssertion user as = Inr x"
    by (rule finishLogin_success)
  have tc: "touchCount w' = Suc (touchCount w)"
    using w' w2 by (simp add: PromptTouch_fields)
  show thesis
    by (rule that [OF i k asr x tc pick])
qed

lemma loginPasswordless_winner:
  assumes "loginPasswordless g cd cdh pr user cs w = Some (Inr lo, w')"
  obtains i c d0 d' p opts as x where
    "i < length (devices w)" and "i < length cs" and "cs ! i = Some c"
    and "kept (devices w ! i) d0"
    and "Assertion g d0 (cand_rp c) cdh [] p opts = Returned (Inr as) d'"
    and "x \<in> set as" and "lo = assembleLogin cd c i x"
    and "touchCount w' = touchCount w + (if cand_kind c = Biometric then 1 else 2)"
    and "pickAssertion user as = Inr x"
proof -
  let ?w1 = "PromptTouch pr w"
  show thesis
  proof (cases "race (pwdlessCall g cdh) (zip (devices ?w1) cs)")
    case (NoWinner ds es fl)
    then have "noWinner (?w1\<lparr>devices := ds\<rparr>) es fl = Some (Inr lo, w')"
      using assms by (simp add: loginPasswordless_def Let_def)
    from noWinner_result [OF this] show thesis
      by auto
  next
    case (Winner i c sel ds)
    note rz = race_zip_Winner [OF Winner]
    have i: "i < length (devices w)"
      using rz(1) by (simp add: PromptTouch_fields)
    have k1: "kept (devices w ! i) (devices ?w1 ! i)"
      using i by (rule PromptTouch_kept)
    show thesis
    proof (cases sel)
      case (Verified as)
      then have fin: "finishLogin cd c i user as (?w1\<lparr>devices := ds\<rparr>) = Some (Inr lo, w')"
        using assms Winner by (simp add: loginPasswordless_def Let_def)
      from fin obtain x where
        x: "x \<in> set as" "lo = assembleLogin cd c i x" and w': "w' = ?w1\<lparr>devices := ds\<rparr>"
        and pick: "pickAssertion user as = Inr x"
        by (rule finishLogin_success)
      have call: "pwdlessCall g cdh (devices ?w1 ! i) c = Returned (Inr (Verified as)) (ds ! i)"
        using rz(4) Verified by simp
      note v = pwdlessCall_Verified [OF call]
      from retryUV_Assertion [OF v(2)] obtain d0 where
        d0: "kept (devices ?w1 ! i) d0"
        and asr: "Assertion g d0 (cand_rp c) cdh [] ''''
                    \<lparr>as_UP = libfido2_True, as_UV = libfido2_True\<rparr> = Returned (Inr as) (ds ! i)"
        by blast
      have k: "kept (devices w ! i) d0"
        using k1 d0 by (rule kept_trans)
      have tc: "touchCount w' = touchCount w + (if cand_kind c = Biometric then 1 else 2)"
        using w' v(1) by (simp add: PromptTouch_fields)
      show thesis
        by (rule that [OF i rz(2) rz(3) k asr x tc pick])
    next
      case Selected
      then have pinleg: "loginWithPIN g cd cdh pr user c i (?w1\<lparr>devices := ds\<rparr>) = Some (Inr lo, w')"
        using assms Winner by (simp add: loginPasswordless_def Let_def)
      have call: "pwdlessCall g cdh (devices ?w1 ! i) c = Returned (Inr Selected) (ds ! i)"
        using rz(4) Selected by simp
      note s = pwdlessCall_Selected [OF call]
      from pinleg obtain d0 d' p opts as x where
        d0: "kept (devices (?w1\<lparr>devices := ds\<rparr>) ! i) d0"
        and asr: "Assertion g d0 (cand_rp c) cdh [] p opts = Returned (Inr as) d'"
        and x: "x \<in> set as" "lo = assembleLogin cd c i x"
        and tc0: "touchCount w' = Suc (touchCount (?w1\<lparr>devices := ds\<rparr>))"
        and pick: "pickAssertion user as = Inr x"
        by (rule loginWithPIN_winner)
      have "kept (devices w ! i) (ds ! i)"
        using k1 s(2) by (rule kept_trans)
      moreover have "kept (ds ! i) d0"
        using d0 by simp
      ultimately have k: "kept (devices w ! i) d0"
        by (rule kept_trans)
      have tc: "touchCount w' = touchCount w + (if cand_kind c = Biometric then 1 else 2)"
        using tc0 s(1) by (simp add: PromptTouch_fields)
      show thesis
        by (rule that [OF i rz(2) rz(3) k asr x tc pick])
    qed
  qed
qed

lemma mfaCall_success:
  assumes "mfaCall g cdh allowed uv p d c = Returned (Inr as) d'"
  obtains d0 pp opts where "kept d d0"
    and "Assertion g d0 (cand_rp c) cdh allowed pp opts = Returned (Inr as) d'"
  using assms retryUV_Assertion unfolding mfaCall_def by fast

lemma loginMFA_winner:
  assumes "loginMFA g cd cdh a pr cs errs w = Some (Inr lo, w')"
  obtains i c d0 d' p opts as x where
    "i < length (devices w)" and "i < length cs" and "cs ! i = Some c"
    and "kept (devices w ! i) d0"
    and "Assertion g d0 (cand_rp c) cdh (ca_AllowedCredentials a) p opts = Returned (Inr as) d'"
    and "as \<noteq> []" and "x = hd as" and "lo = assembleLogin cd c i x"
    and "touchCount w' = Suc (touchCount w)"
proof -
  let ?uv = "ca_UserVerification a = VerificationRequired"
  let ?ask = "needsPIN ?uv cs"
  obtain p w1 where pin: "(if ?ask then PromptPIN pr w else ('''', w)) = (p, w1)"
    by (cases "if ?ask then PromptPIN pr w else ('''', w)")
  have w1: "devices w1 = devices w" "touchCount w1 = touchCount w"
    using pin PromptPIN_fields(1,4) [of pr w] by (auto split: if_splits)
  let ?w2 = "PromptTouch pr w1"
  let ?call = "mfaCall g cdh (ca_AllowedCredentials a) ?uv p"
  from assms pin have go: "(case race ?call (zip (devices ?w2) cs) of
                NoWinner ds es fl \<Rightarrow> noWinner (?w2\<lparr>devices := ds\<rparr>) (errs @ es) fl
              | Winner i c as ds \<Rightarrow>
                  (case as of
                     [] \<Rightarrow> Some (Inl (DeviceError ErrNoCredentials), ?w2\<lparr>devices := ds\<rparr>)
                   | x # _ \<Rightarrow> Some (Inr (assembleLogin cd c i x), ?w2\<lparr>devices := ds\<rparr>)))
              = Some (Inr lo, w')"
    by (auto simp: loginMFA_def Let_def split: if_splits)
  show thesis
  proof (cases "race ?call (zip (devices ?w2) cs)")
    case (NoWinner ds es fl)
    then have "noWinner (?w2\<lparr>devices := ds\<rparr>) (errs @ es) fl = Some (Inr lo, w')"
      using go by simp
    from noWinner_result [OF this] show thesis
      by auto
  next
    case (Winner i c as ds)
    note rz = race_zip_Winner [OF Winner]
    from go Winner obtain x rest where
      as: "as = x # rest" and lo: "lo = assembleLogin cd c i x" and w': "w' = ?w2\<lparr>devices := ds\<rparr>"
      by (auto split: list.splits)
    have ne: "as \<noteq> []" and hd: "x = hd as"
      using as by simp_all
    have i: "i < length (devices w)"
      using rz(1) w1 by (simp add: PromptTouch_fields)
    have "kept (devices w1 ! i) (devices ?w2 ! i)"
      using PromptTouch_kept [of i w1 pr] i w1 by simp
    then have k1: "kept (devices w ! i) (devices ?w2 ! i)"
      using w1 by simp
    from rz(4) obtain d0 pp opts where
      d0: "kept (devices ?w2 ! i) d0"
      and asr: "Assertion g d0 (cand_rp c) cdh (ca_AllowedCredentials a) pp opts
                  = Returned (Inr as) (ds ! i)"
      by (rule mfaCall_success)
    have k: "kept (devices w ! i) d0"
      using k1 d0 by (rule kept_trans)
    have tc: "touchCount w' = Suc (touchCount w)"
      using w' w1 by (simp add: PromptTouch_fields)
    show thesis
      by (rule that [OF i rz(2) rz(3) k asr ne hd lo tc])
  qed
qed

text \<open>
  Behind every successful login there is one device of the world, retained by discovery,
  and one assertion call on it whose result holds the assertion that was assembled.
\<close>

lemma loginCeremony_winner:
  assumes "loginCeremony eng origin a pr user w = Some (Inr lo, w')"
  obtains i c d0 d' p opts as x where
    "i < length (devices w)"
    and "probe (devices w ! i) = Some (cand_kind c)"
    and "ca_AllowedCredentials a = [] \<longrightarrow> cand_kind c = Biometric \<or> cand_kind c = PINProtected"
    and "kept (devices w ! i) d0"
    and "Assertion (eng_globals eng) d0 (cand_rp c)
           (eng_sha256 eng \<lparr>cd_Type = ''webauthn.get'', cd_Challenge = ca_Challenge a,
                             cd_Origin = origin\<rparr>)
           (ca_AllowedCredentials a) p opts = Returned (Inr as) d'"
    and "x \<in> set as" and "ca_AllowedCredentials a \<noteq> [] \<longrightarrow> x = hd as"
    and "lo = assembleLogin \<lparr>cd_Type = ''webauthn.get'', cd_Challenge = ca_Challenge a,
                              cd_Origin = origin\<rparr> c i x"
    and "touchCount w' = touchCount w
           + (if ca_AllowedCredentials a = [] \<and> cand_kind c \<noteq> Biometric then 2 else 1)"
    and "ca_AllowedCredentials a = [] \<longrightarrow> pickAssertion user as = Inr x"
proof -
  let ?g = "eng_globals eng"
  let ?cd = "\<lparr>cd_Type = ''webauthn.get'', cd_Challenge = ca_Challenge a, cd_Origin = origin\<rparr>"
  let ?cdh = "eng_sha256 eng ?cd"
  let ?found = "map (discoverLogin ?g a ?cdh) (devices w)"
  let ?w0 = "w\<lparr>devices := map fst ?found\<rparr>"
  let ?cs = "map (\<lambda>r. retained (snd r)) ?found"
  have disc: "kept (devices w ! i) (devices ?w0 ! i)"
      "probe (devices w ! i) = Some (cand_kind c)"
      "ca_AllowedCredentials a = [] \<longrightarrow> cand_kind c = Biometric \<or> cand_kind c = PINProtected"
    if "i < length (devices w)" "?cs ! i = Some c" for i c
    using that discoverLogin_kept [of "devices w ! i" ?g a ?cdh]
      discoverLogin_kind [of ?g a ?cdh "devices w ! i" c]
      discoverLogin_passwordless [of a ?g ?cdh "devices w ! i" c]
    by (simp_all add: retained_Some)
  show thesis
  proof (cases "ca_AllowedCredentials a = []")
    case True
    then have "loginPasswordless ?g ?cd ?cdh pr user ?cs ?w0 = Some (Inr lo, w')"
      using assms by (simp add: loginCeremony_def Let_def)
    then obtain i c d0 d' p opts as x where
      f: "i < length (devices ?w0)" "?cs ! i = Some c" "kept (devices ?w0 ! i) d0"
        "Assertion ?g d0 (cand_rp c) ?cdh [] p opts = Returned (Inr as) d'"
        "x \<in> set as" "lo = assembleLogin ?cd c i x"
        "touchCount w' = touchCount ?w0 + (if cand_kind c = Biometric then 1 else 2)"
        "pickAssertion user as = Inr x"
      by (rule loginPasswordless_winner)
    have i: "i < length (devices w)"
      using f(1) by simp
    note d = disc [OF i f(2)]
    have k: "kept (devices w ! i) d0"
      using d(1) f(3) by (rule kept_trans)
    have asr: "Assertion ?g d0 (cand_rp c) ?cdh (ca_AllowedCredentials a) p opts = Returned (Inr as) d'"
      using f(4) True by simp
    have hd: "ca_AllowedCredentials a \<noteq> [] \<longrightarrow> x = hd as"
      using True by simp
    have tc: "touchCount w' = touchCount w
               + (if ca_AllowedCredentials a = [] \<and> cand_kind c \<noteq> Biometric then 2 else 1)"
      using f(7) True by simp
    have pick: "ca_AllowedCredentials a = [] \<longrightarrow> pickAssertion user as = Inr x"
      using f(8) by simp
    show thesis
      by (rule that [OF i d(2) d(3) k asr f(5) hd f(6) tc pick])
  next
    case False
    then have "loginMFA ?g ?cd ?cdh a pr ?cs (failures (map snd ?found)) ?w0 = Some (Inr lo, w')"
      using assms by (simp add: loginCeremony_def Let_def)
    then obtain i c d0 d' p opts as x where
      f: "i < length (devices ?w0)" "?cs ! i = Some c" "kept (devices ?w0 ! i) d0"
        "Assertion ?g d0 (cand_rp c) ?cdh (ca_AllowedCredentials a) p opts = Returned (Inr as) d'"
        "as \<noteq> []" "x = hd as" "lo = assembleLogin ?cd c i x"
        "touchCount w' = Suc (touchCount ?w0)"
      by (rule loginMFA_winner)
    have i: "i < length (devices w)"
      using f(1) by simp
    note d = disc [OF i f(2)]
    have k: "kept (devices w ! i) d0"
      using d(1) f(3) by (rule kept_trans)
    have mem: "x \<in> set as"
      using f(5,6) by simp
    have hd: "ca_AllowedCredentials a \<noteq> [] \<longrightarrow> x = hd as"
      using f(6) by simp
    have tc: "touchCount w' = touchCount w
               + (if ca_AllowedCredentials a = [] \<and> cand_kind c \<noteq> Biometric then 2 else 1)"
      using f(8) False by simp
    have pick: "ca_AllowedCredentials a = [] \<longrightarrow> pickAssertion user as = Inr x"
      using False by simp
    show thesis
      by (rule that [OF i d(2) d(3) k f(4) mem hd f(7) tc pick])
  qed
qed

lemma FIDO2Login_success:
  assumes "FIDO2Login eng origin assertion prompt user w = Some (Inr (resp, u), w')"
  obtains a pr lo where "assertion = Some a" and "prompt = Some pr"
    and "loginCeremony eng origin a pr user w = Some (Inr lo, w')"
    and "resp = lo_Response lo" and "u = lo_User lo"
proof -
  from assms obtain a pr where v: "validateLogin origin assertion prompt = Inr (a, pr)"
    by (auto simp: FIDO2Login_def split: sum.splits)
  then have ap: "assertion = Some a" "prompt = Some pr"
    by (auto simp: validateLogin_def split: if_splits option.splits)
  from assms v obtain lo where
    lo: "loginCeremony eng origin a pr user w = Some (Inr lo, w')" "resp = lo_Response lo"
      "u = lo_User lo"
    by (auto simp: FIDO2Login_def split: option.splits sum.splits prod.splits)
  show thesis
    by (rule that [OF ap lo])
qed

lemma residentAssertions_length: "length (residentAssertions g ids cs) \<le> length cs"
  by (induction cs) (auto simp: Let_def le_SucI)

lemma baseAssertions_nil: "baseAssertions g d [] = []"
  by (simp add: baseAssertions_def)

text \<open>
  An assertion that carries a user name was returned among several, all of them for
  resident credentials, when the allowed list is empty or the assertion is the first of
  the list.
\<close>

lemma Assertion_named:
  assumes call: "Assertion g d rp cdh ids p opts = Returned (Inr as) d'"
    and mem: "x \<in> set as"
    and pos: "ids = [] \<or> x = hd as"
    and name: "user_Name (asr_User x) \<noteq> ''''"
  shows "as = residentAssertions g ids (credentials d)" and "2 \<le> length as"
proof -
  let ?base = "baseAssertions g d ids"
  let ?res = "if isBio d \<or> (p \<noteq> '''' \<and> as_UP opts = libfido2_True)
              then residentAssertions g ids (credentials d) else []"
  from Assertion_success_shape [OF call] have
    ne: "?base @ ?res \<noteq> []"
    and as: "as = (if length (?base @ ?res) = 1 then [stripUser (hd (?base @ ?res))]
                   else ?base @ ?res)"
    by auto
  have several: "length (?base @ ?res) \<noteq> 1"
  proof
    assume "length (?base @ ?res) = 1"
    then have "as = [stripUser (hd (?base @ ?res))]"
      using as by simp
    then have "x = stripUser (hd (?base @ ?res))"
      using mem by simp
    then show False
      using name by (simp add: stripUser_sel)
  qed
  then have asx: "as = ?base @ ?res"
    using as by simp
  have nobase: "?base = []"
  proof (rule ccontr)
    assume b: "?base \<noteq> []"
    then have "ids \<noteq> []"
      using baseAssertions_nil by metis
    then have "x = hd as"
      using pos by simp
    then have "x = hd ?base"
      using asx b by simp
    then have "x \<in> set ?base"
      using b by simp
    then have "asr_User x = emptyUser"
      using baseAssertions_mem by blast
    then show False
      using name by (simp add: emptyUser_def)
  qed
  then have res: "as = ?res"
    using asx by simp
  then show priv: "as = residentAssertions g ids (credentials d)"
    using mem by (auto split: if_splits)
  have "length as \<noteq> 1"
    unfolding asx by (rule several)
  moreover have "as \<noteq> []"
    unfolding asx by (rule ne)
  ultimately show "2 \<le> length as"
    by (cases as) (auto simp: Suc_le_eq)
qed

lemma Assertion_lone:
  assumes "Assertion g d rp cdh ids p opts = Returned (Inr as) d'" and "length as = 1"
    and "x \<in> set as"
  shows "user_Name (asr_User x) = ''''"
proof -
  let ?raw = "baseAssertions g d ids @
                (if isBio d \<or> (p \<noteq> '''' \<and> as_UP opts = libfido2_True)
                 then residentAssertions g ids (credentials d) else [])"
  from Assertion_success_shape [OF assms(1)] have
    as: "as = (if length ?raw = 1 then [stripUser (hd ?raw)] else ?raw)"
    by auto
  then have "as = [stripUser (hd ?raw)]"
    using assms(2) by (auto split: if_splits)
  then show ?thesis
    using assms(3) by (simp add: stripUser_sel)
qed

text \<open>The resident assertions are those of the eligible credentials, in their order.\<close>

lemma residentAssertions_filter:
  "residentAssertions g ids cs
     = map (\<lambda>r. \<lparr>asr_AuthDataCBOR = assertionAuthDataCBOR g, asr_Sig = assertionSig g,
                   asr_HMACSecret = Some [], asr_CredentialID = cred_ID r,
                   asr_User = cred_User r\<rparr>)
         (filter (\<lambda>r. set ids = {} \<or> cred_ID r \<in> set ids) cs)"
  by (induction cs) (simp_all add: Let_def)

lemma residentAssertions_eligible:
  "residentAssertions g ids (credentials d)
     = map (\<lambda>r. \<lparr>asr_AuthDataCBOR = assertionAuthDataCBOR g, asr_Sig = assertionSig g,
                   asr_HMACSecret = Some [], asr_CredentialID = cred_ID r,
                   asr_User = cred_User r\<rparr>)
         (eligible ids d)"
  by (simp add: eligible_def residentAssertions_filter)

lemma eligible_kept: "kept d d' \<Longrightarrow> eligible ids d' = eligible ids d"
  by (simp add: eligible_def kept_same)

lemma pickAssertion_several:
  assumes "pickAssertion user as = Inr x" and "2 \<le> length as"
  shows "user \<noteq> '''' \<longrightarrow> user_Name (asr_User x) = user" and "user = '''' \<longrightarrow> x = hd as"
proof -
  from assms(2) obtain y z zs where as: "as = y # z # zs"
    by (cases as; simp; rename_tac ys; case_tac ys; simp)
  have pa: "pickAssertion user as =
              (if user \<noteq> '''' then
                 (case find (\<lambda>x. user_Name (asr_User x) = user) as of
                    None \<Rightarrow> Inl (NoCredentialsForUser user)
                  | Some x \<Rightarrow> Inr x)
               else
                 (case PromptCredential as of
                    None \<Rightarrow> Inl (DeviceError ErrNoCredentials)
                  | Some x \<Rightarrow> Inr x))"
    unfolding as by (simp only: pickAssertion_def list.case)
  show "user \<noteq> '''' \<longrightarrow> user_Name (asr_User x) = user"
  proof
    assume "user \<noteq> ''''"
    then have "find (\<lambda>x. user_Name (asr_User x) = user) as = Some x"
      using assms(1) pa by (simp split: option.splits)
    then show "user_Name (asr_User x) = user"
      by (auto simp: find_Some_iff)
  qed
  show "user = '''' \<longrightarrow> x = hd as"
    using assms(1) pa unfolding as by (auto simp: PromptCredential_def)
qed

text \<open>
  C1 as stated fails in its last clause: with several devices plugged a passwordless
  login does not always take two touch prompts. With \<open>pin1\<close> and \<open>bio1\<close> of
  \<open>TestFIDO2Login_PromptTouch\<close> plugged and the user touching the biometric one (the
  test touches \<open>pin1\<close>), the login completes after one touch prompt and no PIN prompt:
  the one touch of a biometric device is presence and verification at once.
\<close>

theorem one_touch_with_several_devices:
  "FIDO2Login eng0 ''https://example.com'' (Some pwdlessAssertion) (Some (DevicePrompt bioT)) ''''
     (plugged [pinT, bioT])
     = Some (Inr (\<lparr>lr_RawId = [8, 0], lr_AuthenticatorData = [88, 37, 2], lr_Signature = [70, 2],
                   lr_UserHandle = [1, 1, 1, 1, 1],
                   lr_ClientData = \<lparr>cd_Type = ''webauthn.get'', cd_Challenge = [1, 2, 3, 4, 5],
                                     cd_Origin = ''https://example.com''\<rparr>,
                   lr_AppID = False\<rparr>, ''llama''),
             \<lparr>devices = [pinT, bioT], hasDeadline = True, cancelled = False, touchCount = 1,
              pinCount = 0\<rparr>)
   \<and> length (devices (plugged [pinT, bioT])) = 2
   \<and> touchCount (plugged [pinT, bioT]) = 0"
  by (simp add: login_defs prompt_defs fixture_defs engine_fixture_defs device_defs
        Assertion_def Let_def numeral_3_eq_3)

text \<open>
  C1, as amended. Every login that completes successfully was answered by one plugged
  device, and the touch prompt was invoked exactly once for an MFA login, exactly once
  for a passwordless login answered by a biometric device, and exactly twice for a
  passwordless login answered by a PIN-protected device (the selection touch and the
  touch after the PIN). With several devices plugged the count of a passwordless login
  is that of the device that answers: exactly two when it is PIN-protected, exactly one
  when it is biometric.
\<close>

theorem touch_prompts_counted:
  assumes "FIDO2Login eng origin assertion prompt user w = Some (Inr (resp, u), w')"
  shows "\<exists>a pr lo.
           assertion = Some a \<and> prompt = Some pr
           \<and> loginCeremony eng origin a pr user w = Some (Inr lo, w')
           \<and> lo_Device lo < length (devices w)
           \<and> probe (devices w ! lo_Device lo) = Some (lo_Kind lo)
           \<and> (ca_AllowedCredentials a \<noteq> [] \<longrightarrow> touchCount w' = touchCount w + 1)
           \<and> (ca_AllowedCredentials a = [] \<longrightarrow>
                (lo_Kind lo = Biometric \<and> touchCount w' = touchCount w + 1)
                \<or> (lo_Kind lo = PINProtected \<and> touchCount w' = touchCount w + 2))
           \<and> (ca_AllowedCredentials a = [] \<and> 1 < length (devices w) \<longrightarrow>
                touchCount w' = touchCount w + (if lo_Kind lo = PINProtected then 2 else 1))"
proof -
  from assms obtain a pr lo where
    ap: "assertion = Some a" "prompt = Some pr"
    and cer: "loginCeremony eng origin a pr user w = Some (Inr lo, w')"
    by (rule FIDO2Login_success)
  from cer obtain i c x where
    i: "i < length (devices w)"
    and kind: "probe (devices w ! i) = Some (cand_kind c)"
    and two: "ca_AllowedCredentials a = [] \<longrightarrow> cand_kind c = Biometric \<or> cand_kind c = PINProtected"
    and lo: "lo = assembleLogin \<lparr>cd_Type = ''webauthn.get'', cd_Challenge = ca_Challenge a,
                                   cd_Origin = origin\<rparr> c i x"
    and tc: "touchCount w' = touchCount w
               + (if ca_AllowedCredentials a = [] \<and> cand_kind c \<noteq> Biometric then 2 else 1)"
    by (rule loginCeremony_winner)
  have sel: "lo_Device lo = i" "lo_Kind lo = cand_kind c"
    using lo by (simp_all add: assembleLogin_def)
  have mfa: "ca_AllowedCredentials a \<noteq> [] \<longrightarrow> touchCount w' = touchCount w + 1"
    using tc by simp
  have pwdless: "ca_AllowedCredentials a = [] \<longrightarrow>
                (lo_Kind lo = Biometric \<and> touchCount w' = touchCount w + 1)
                \<or> (lo_Kind lo = PINProtected \<and> touchCount w' = touchCount w + 2)"
    using tc two sel by auto
  have several: "ca_AllowedCredentials a = [] \<and> 1 < length (devices w) \<longrightarrow>
                touchCount w' = touchCount w + (if lo_Kind lo = PINProtected then 2 else 1)"
    using pwdless by auto
  show ?thesis
    using ap cer i kind sel mfa pwdless several by auto
qed

theorem touch_prompts_counted_witness:
  "FIDO2Login eng0 ''https://example.com'' (Some pwdlessAssertion) (Some (DevicePrompt pinT)) ''''
     (plugged [pinT, bioT])
     = Some (Inr (\<lparr>lr_RawId = [7, 0], lr_AuthenticatorData = [88, 37, 2], lr_Signature = [70, 2],
                   lr_UserHandle = [1, 1, 1, 1, 2],
                   lr_ClientData = \<lparr>cd_Type = ''webauthn.get'', cd_Challenge = [1, 2, 3, 4, 5],
                                     cd_Origin = ''https://example.com''\<rparr>,
                   lr_AppID = False\<rparr>, ''''),
             \<lparr>devices = [pinT, bioT], hasDeadline = True, cancelled = False, touchCount = 2,
              pinCount = 1\<rparr>)
   \<and> 1 < length (devices (plugged [pinT, bioT]))
   \<and> (\<exists>lo. loginCeremony eng0 ''https://example.com'' pwdlessAssertion (DevicePrompt pinT) ''''
               (plugged [pinT, bioT])
             = Some (Inr lo, \<lparr>devices = [pinT, bioT], hasDeadline = True, cancelled = False,
                              touchCount = 2, pinCount = 1\<rparr>)
           \<and> lo_Kind lo = PINProtected
           \<and> probe (devices (plugged [pinT, bioT]) ! lo_Device lo) = Some PINProtected)"
proof -
  let ?w' = "\<lparr>devices = [pinT, bioT], hasDeadline = True, cancelled = False, touchCount = 2,
              pinCount = 1\<rparr>"
  let ?resp = "\<lparr>lr_RawId = [7, 0], lr_AuthenticatorData = [88, 37, 2], lr_Signature = [70, 2],
                   lr_UserHandle = [1, 1, 1, 1, 2],
                   lr_ClientData = \<lparr>cd_Type = ''webauthn.get'', cd_Challenge = [1, 2, 3, 4, 5],
                                     cd_Origin = ''https://example.com''\<rparr>,
                   lr_AppID = False\<rparr>"
  have run: "FIDO2Login eng0 ''https://example.com'' (Some pwdlessAssertion)
               (Some (DevicePrompt pinT)) '''' (plugged [pinT, bioT]) = Some (Inr (?resp, ''''), ?w')"
    by (simp add: login_defs prompt_defs fixture_defs engine_fixture_defs device_defs
          Assertion_def Let_def numeral_3_eq_3)
  have pw: "ca_AllowedCredentials pwdlessAssertion = []"
    by (simp add: pwdlessAssertion_def)
  have many: "1 < length (devices (plugged [pinT, bioT]))"
    by (simp add: plugged_def)
  have tc: "touchCount ?w' \<noteq> touchCount (plugged [pinT, bioT]) + 1"
    by (simp add: plugged_def)
  from touch_prompts_counted [OF run] obtain lo where
    "loginCeremony eng0 ''https://example.com'' pwdlessAssertion (DevicePrompt pinT) ''''
       (plugged [pinT, bioT]) = Some (Inr lo, ?w')"
    "probe (devices (plugged [pinT, bioT]) ! lo_Device lo) = Some (lo_Kind lo)"
    "touchCount ?w' = touchCount (plugged [pinT, bioT])
                        + (if lo_Kind lo = PINProtected then 2 else 1)"
    using pw many by auto
  then show ?thesis
    using run tc many by (auto split: if_splits)
qed

text \<open>
  C8 as stated fails: the actual user is non-empty also when no credential was selected by
  name. With \<open>bio2\<close> plugged (resident credentials for llama and alpaca), a
  passwordless login without a requested user returns the actual user llama, the choice
  of the credential picker (the case "passwordless multi-choice credential picker" of
  \<open>TestFIDO2Login\<close>); and an MFA login that allows both resident credentials and asks
  for alpaca returns llama, the user of the first assertion.
\<close>

theorem actual_user_without_name:
  "FIDO2Login eng0 ''https://example.com'' (Some pwdlessAssertion) (Some (DevicePrompt bio2))
     '''' (plugged [bio2])
     = Some (Inr (\<lparr>lr_RawId = [5, 0], lr_AuthenticatorData = [88, 37, 2], lr_Signature = [70, 2],
                   lr_UserHandle = [1, 1, 1, 1, 1],
                   lr_ClientData = \<lparr>cd_Type = ''webauthn.get'', cd_Challenge = [1, 2, 3, 4, 5],
                                     cd_Origin = ''https://example.com''\<rparr>,
                   lr_AppID = False\<rparr>, ''llama''),
             \<lparr>devices = [bio2], hasDeadline = True, cancelled = False, touchCount = 1,
              pinCount = 0\<rparr>)
   \<and> FIDO2Login eng0 ''https://example.com'' (Some mfaBoth) (Some (DevicePrompt bio2))
       ''alpaca'' (plugged [bio2])
     = Some (Inr (\<lparr>lr_RawId = [5, 0], lr_AuthenticatorData = [88, 37, 2], lr_Signature = [70, 2],
                   lr_UserHandle = [1, 1, 1, 1, 1],
                   lr_ClientData = \<lparr>cd_Type = ''webauthn.get'', cd_Challenge = [1, 2, 3, 4, 5],
                                     cd_Origin = ''https://example.com''\<rparr>,
                   lr_AppID = False\<rparr>, ''llama''),
             \<lparr>devices = [bio2], hasDeadline = True, cancelled = False, touchCount = 1,
              pinCount = 0\<rparr>)"
  by (simp add: login_defs prompt_defs fixture_defs engine_fixture_defs device_defs
        Assertion_def Let_def numeral_3_eq_3)

text \<open>
  C8, as amended. The actual user of a successful login is the name the authenticator
  returned on the chosen assertion. It is non-empty only if the answering device holds at
  least two resident credentials eligible for the challenge, and it is the name of one of
  them, whose user ID and credential ID are the returned user handle and credential ID:
  the credential of the requested user when a passwordless login names one, and the
  first eligible credential otherwise (the choice of the credential picker of the tests,
  or the first assertion of an MFA login). When exactly one resident credential is
  eligible, or none, the actual user is empty, whatever user was asked for; and so it is
  whenever the assertion call that produced the response, made on the answering device,
  returned a single assertion.
\<close>

theorem actual_user_needs_several:
  assumes "FIDO2Login eng origin assertion prompt user w = Some (Inr (resp, u), w')"
  shows "\<exists>a pr lo.
           assertion = Some a \<and> prompt = Some pr
           \<and> loginCeremony eng origin a pr user w = Some (Inr lo, w')
           \<and> resp = lo_Response lo \<and> u = lo_User lo \<and> lo_Device lo < length (devices w)
           \<and> (u \<noteq> '''' \<longrightarrow>
                2 \<le> length (eligible (ca_AllowedCredentials a) (devices w ! lo_Device lo))
                \<and> (\<exists>r \<in> set (eligible (ca_AllowedCredentials a) (devices w ! lo_Device lo)).
                      user_Name (cred_User r) = u \<and> user_ID (cred_User r) = lr_UserHandle resp
                      \<and> cred_ID r = lr_RawId resp
                      \<and> (ca_AllowedCredentials a \<noteq> [] \<or> user = '''' \<longrightarrow>
                            r = hd (eligible (ca_AllowedCredentials a) (devices w ! lo_Device lo))))
                \<and> (ca_AllowedCredentials a = [] \<and> user \<noteq> '''' \<longrightarrow> u = user))
           \<and> (length (eligible (ca_AllowedCredentials a) (devices w ! lo_Device lo)) \<le> 1
                \<longrightarrow> u = '''')
           \<and> (\<exists>d0 d' rp p opts as x.
                 kept (devices w ! lo_Device lo) d0
                 \<and> Assertion (eng_globals eng) d0 rp
                       (eng_sha256 eng \<lparr>cd_Type = ''webauthn.get'', cd_Challenge = ca_Challenge a,
                                         cd_Origin = origin\<rparr>)
                       (ca_AllowedCredentials a) p opts = Returned (Inr as) d'
                 \<and> x \<in> set as \<and> u = user_Name (asr_User x)
                 \<and> lr_RawId resp = asr_CredentialID x
                 \<and> lr_UserHandle resp = user_ID (asr_User x)
                 \<and> (length as = 1 \<longrightarrow> u = ''''))"
proof -
  from assms obtain a pr lo where
    ap: "assertion = Some a" "prompt = Some pr"
    and cer: "loginCeremony eng origin a pr user w = Some (Inr lo, w')"
    and ru: "resp = lo_Response lo" "u = lo_User lo"
    by (rule FIDO2Login_success)
  let ?cd = "\<lparr>cd_Type = ''webauthn.get'', cd_Challenge = ca_Challenge a, cd_Origin = origin\<rparr>"
  let ?g = "eng_globals eng"
  let ?ids = "ca_AllowedCredentials a"
  from cer obtain i c d0 d' p opts as x where
    i: "i < length (devices w)"
    and k: "kept (devices w ! i) d0"
    and call: "Assertion ?g d0 (cand_rp c) (eng_sha256 eng ?cd) ?ids p opts = Returned (Inr as) d'"
    and mem: "x \<in> set as"
    and hd: "?ids \<noteq> [] \<longrightarrow> x = hd as"
    and lo: "lo = assembleLogin ?cd c i x"
    and pick: "?ids = [] \<longrightarrow> pickAssertion user as = Inr x"
    by (rule loginCeremony_winner)
  let ?el = "eligible ?ids (devices w ! i)"
  let ?mk = "\<lambda>r. \<lparr>asr_AuthDataCBOR = assertionAuthDataCBOR ?g, asr_Sig = assertionSig ?g,
                   asr_HMACSecret = Some [], asr_CredentialID = cred_ID r,
                   asr_User = cred_User r\<rparr>"
  have sel: "lo_Device lo = i" "lo_User lo = user_Name (asr_User x)"
    "lr_UserHandle (lo_Response lo) = user_ID (asr_User x)"
    "lr_RawId (lo_Response lo) = asr_CredentialID x"
    using lo by (simp_all add: assembleLogin_def)
  have el: "eligible ?ids d0 = ?el"
    using k by (rule eligible_kept)
  have pos: "?ids = [] \<or> x = hd as"
    using hd by blast
  have named: "2 \<le> length ?el
               \<and> (\<exists>r \<in> set ?el.
                      user_Name (cred_User r) = u \<and> user_ID (cred_User r) = lr_UserHandle resp
                      \<and> cred_ID r = lr_RawId resp
                      \<and> (?ids \<noteq> [] \<or> user = '''' \<longrightarrow> r = hd ?el))
               \<and> (?ids = [] \<and> user \<noteq> '''' \<longrightarrow> u = user)"
    if "u \<noteq> ''''"
  proof -
    have name: "user_Name (asr_User x) \<noteq> ''''"
      using that ru sel by simp
    note n = Assertion_named [OF call mem pos name]
    have as: "as = map ?mk ?el"
      using n(1) el by (simp add: residentAssertions_eligible)
    have two: "2 \<le> length ?el"
      using n(2) as by simp
    then have ne: "?el \<noteq> []"
      by auto
    have first: "x = hd as" if "?ids \<noteq> [] \<or> user = ''''"
      using that hd pick pickAssertion_several(2) [OF _ n(2)] by blast
    obtain r where r: "r \<in> set ?el" "x = ?mk r" "?ids \<noteq> [] \<or> user = '''' \<longrightarrow> r = hd ?el"
    proof (cases "?ids \<noteq> [] \<or> user = ''''")
      case True
      then have "x = ?mk (hd ?el)"
        using first as ne by (simp add: hd_map)
      then show thesis
        using that [of "hd ?el"] ne by simp
    next
      case False
      from mem as obtain r where "r \<in> set ?el" "x = ?mk r"
        by auto
      then show thesis
        using that [of r] False by simp
    qed
    have fields: "user_Name (cred_User r) = u" "user_ID (cred_User r) = lr_UserHandle resp"
      "cred_ID r = lr_RawId resp"
      using r(2) ru sel by simp_all
    have byname: "?ids = [] \<and> user \<noteq> '''' \<longrightarrow> u = user"
      using pick pickAssertion_several(1) [OF _ n(2)] ru(2) sel(2) by blast
    show ?thesis
      using two r(1,3) fields byname by blast
  qed
  then have single: "length ?el \<le> 1 \<longrightarrow> u = ''''"
    by fastforce
  have dev: "lo_Device lo < length (devices w)"
    using i sel(1) by simp
  have concl: "(u \<noteq> '''' \<longrightarrow>
                2 \<le> length (eligible ?ids (devices w ! lo_Device lo))
                \<and> (\<exists>r \<in> set (eligible ?ids (devices w ! lo_Device lo)).
                      user_Name (cred_User r) = u \<and> user_ID (cred_User r) = lr_UserHandle resp
                      \<and> cred_ID r = lr_RawId resp
                      \<and> (?ids \<noteq> [] \<or> user = '''' \<longrightarrow>
                            r = hd (eligible ?ids (devices w ! lo_Device lo))))
                \<and> (?ids = [] \<and> user \<noteq> '''' \<longrightarrow> u = user))
           \<and> (length (eligible ?ids (devices w ! lo_Device lo)) \<le> 1 \<longrightarrow> u = '''')"
    unfolding sel(1) using named single by blast
  have lone: "length as = 1 \<longrightarrow> u = ''''"
    using Assertion_lone [OF call _ mem] ru(2) sel(2) by simp
  have behind: "\<exists>d0 d' rp p opts as x.
                 kept (devices w ! lo_Device lo) d0
                 \<and> Assertion ?g d0 rp (eng_sha256 eng ?cd) ?ids p opts = Returned (Inr as) d'
                 \<and> x \<in> set as \<and> u = user_Name (asr_User x)
                 \<and> lr_RawId resp = asr_CredentialID x
                 \<and> lr_UserHandle resp = user_ID (asr_User x)
                 \<and> (length as = 1 \<longrightarrow> u = '''')"
    unfolding sel(1) using k call mem ru sel(2,3,4) lone by blast
  show ?thesis
    using ap cer ru dev concl behind by blast
qed

theorem actual_user_needs_several_witness:
  "FIDO2Login eng0 ''https://example.com'' (Some pwdlessAssertion) (Some (DevicePrompt bio2))
     ''alpaca'' (plugged [bio2])
     = Some (Inr (\<lparr>lr_RawId = [5, 1], lr_AuthenticatorData = [88, 37, 2], lr_Signature = [70, 2],
                   lr_UserHandle = [1, 1, 1, 1, 2],
                   lr_ClientData = \<lparr>cd_Type = ''webauthn.get'', cd_Challenge = [1, 2, 3, 4, 5],
                                     cd_Origin = ''https://example.com''\<rparr>,
                   lr_AppID = False\<rparr>, ''alpaca''),
             \<lparr>devices = [bio2], hasDeadline = True, cancelled = False, touchCount = 1,
              pinCount = 0\<rparr>)
   \<and> (\<exists>i < length (devices (plugged [bio2])).
         2 \<le> length (eligible [] (devices (plugged [bio2]) ! i))
         \<and> (\<exists>r \<in> set (eligible [] (devices (plugged [bio2]) ! i)).
               user_Name (cred_User r) = ''alpaca'' \<and> user_ID (cred_User r) = [1, 1, 1, 1, 2]
               \<and> cred_ID r = [5, 1]))
   \<and> FIDO2Login eng0 ''https://example.com'' (Some pwdlessAssertion)
       (Some (DevicePrompt (bioE []))) ''alpaca'' (plugged [bioE []])
     = Some (Inr (\<lparr>lr_RawId = [9, 0], lr_AuthenticatorData = [88, 37, 2], lr_Signature = [70, 2],
                   lr_UserHandle = [1, 1, 1, 1, 1],
                   lr_ClientData = \<lparr>cd_Type = ''webauthn.get'', cd_Challenge = [1, 2, 3, 4, 5],
                                     cd_Origin = ''https://example.com''\<rparr>,
                   lr_AppID = False\<rparr>, ''''),
             \<lparr>devices = [bioE []], hasDeadline = True, cancelled = False, touchCount = 1,
              pinCount = 0\<rparr>)
   \<and> length (eligible [] (bioE [])) = 1"
proof -
  let ?w' = "\<lparr>devices = [bio2], hasDeadline = True, cancelled = False, touchCount = 1,
              pinCount = 0\<rparr>"
  let ?resp = "\<lparr>lr_RawId = [5, 1], lr_AuthenticatorData = [88, 37, 2], lr_Signature = [70, 2],
                   lr_UserHandle = [1, 1, 1, 1, 2],
                   lr_ClientData = \<lparr>cd_Type = ''webauthn.get'', cd_Challenge = [1, 2, 3, 4, 5],
                                     cd_Origin = ''https://example.com''\<rparr>,
                   lr_AppID = False\<rparr>"
  have run: "FIDO2Login eng0 ''https://example.com'' (Some pwdlessAssertion)
               (Some (DevicePrompt bio2)) ''alpaca'' (plugged [bio2])
             = Some (Inr (?resp, ''alpaca''), ?w')"
    by (simp add: login_defs prompt_defs fixture_defs engine_fixture_defs device_defs
          Assertion_def Let_def numeral_3_eq_3)
  have one: "FIDO2Login eng0 ''https://example.com'' (Some pwdlessAssertion)
       (Some (DevicePrompt (bioE []))) ''alpaca'' (plugged [bioE []])
     = Some (Inr (\<lparr>lr_RawId = [9, 0], lr_AuthenticatorData = [88, 37, 2], lr_Signature = [70, 2],
                   lr_UserHandle = [1, 1, 1, 1, 1],
                   lr_ClientData = \<lparr>cd_Type = ''webauthn.get'', cd_Challenge = [1, 2, 3, 4, 5],
                                     cd_Origin = ''https://example.com''\<rparr>,
                   lr_AppID = False\<rparr>, ''''),
             \<lparr>devices = [bioE []], hasDeadline = True, cancelled = False, touchCount = 1,
              pinCount = 0\<rparr>)"
    by (simp add: login_defs prompt_defs fixture_defs engine_fixture_defs device_defs
          Assertion_def Let_def numeral_3_eq_3)
  have single: "length (eligible [] (bioE [])) = 1"
    by (simp add: eligible_def fixture_defs engine_fixture_defs)
  have ne: "''alpaca'' \<noteq> ''''"
    by simp
  have pw: "ca_AllowedCredentials pwdlessAssertion = []"
    by (simp add: pwdlessAssertion_def)
  from actual_user_needs_several [OF run] ne pw
  have "\<exists>i < length (devices (plugged [bio2])).
         2 \<le> length (eligible [] (devices (plugged [bio2]) ! i))
         \<and> (\<exists>r \<in> set (eligible [] (devices (plugged [bio2]) ! i)).
               user_Name (cred_User r) = ''alpaca'' \<and> user_ID (cred_User r) = lr_UserHandle ?resp
               \<and> cred_ID r = lr_RawId ?resp)"
    by auto
  then show ?thesis
    using run one single by simp
qed

section \<open>The retry on error 63\<close>

subsection \<open>Devices that differ in queued errors 63\<close>













subsection \<open>Races and prompts on such devices\<close>














subsection \<open>The ceremonies on such devices\<close>








subsection \<open>Beyond the limit\<close>












end
